theory Spec2Isabelle
  imports Main "HOL-Library.Char_ord" "HOL-Library.List_Lexorder"
begin

section \<open>Python values and the operations the service applies to them\<close>

text \<open>
  The service in \<^verbatim>\<open>server1.py\<close> handles decoded JSON (\<^verbatim>\<open>Dict[str, Any]\<close>) from two
  external services. A decoded JSON value is modelled as \<open>json\<close>; an object keeps its
  entries as an association list in insertion order, and a Python \<^verbatim>\<open>dict\<close> never holds
  the same key twice. Numbers are integers: a JSON number with a fraction or an exponent
  (a Python \<^verbatim>\<open>float\<close>) is outside the model. A \<open>char\<close> stands for a code point below 256.
\<close>

datatype json =
    JNull
  | JBool bool
  | JInt int
  | JStr string
  | JList "json list"
  | JObj "(string \<times> json) list"

text \<open>
  Exceptions are values. \<open>HTTPException\<close> is FastAPI's (status code and detail);
  \<open>HTTPError\<close> is \<^verbatim>\<open>httpx.HTTPError\<close>; \<open>GeneratorError\<close> is whatever the text generator's
  client raises, \<open>PyMongoError\<close> whatever the database driver raises apart from the
  \<open>OverflowError\<close> of its encoder. All of them derive from Python's \<^verbatim>\<open>Exception\<close>.
\<close>

datatype exn =
    HTTPException nat string
  | HTTPError
  | KeyError
  | TypeError
  | AttributeError
  | ZeroDivisionError
  | IndexError
  | JSONDecodeError
  | ValueError
  | ValidationError
  | GeneratorError
  | OverflowError
  | PyMongoError

definition and_then :: "exn + 'a \<Rightarrow> ('a \<Rightarrow> exn + 'b) \<Rightarrow> exn + 'b" where
  "and_then m f = (case m of Inl e \<Rightarrow> Inl e | Inr x \<Rightarrow> f x)"

fun truthy :: "json \<Rightarrow> bool" where
  "truthy JNull = False"
| "truthy (JBool b) = b"
| "truthy (JInt i) = (i \<noteq> 0)"
| "truthy (JStr s) = (s \<noteq> [])"
| "truthy (JList xs) = (xs \<noteq> [])"
| "truthy (JObj kvs) = (kvs \<noteq> [])"

text \<open>\<^verbatim>\<open>d.get(k, default)\<close>: only a dict has \<^verbatim>\<open>get\<close>.\<close>

fun py_get :: "json \<Rightarrow> string \<Rightarrow> json \<Rightarrow> exn + json" where
  "py_get (JObj kvs) k dflt = Inr (case map_of kvs k of None \<Rightarrow> dflt | Some v \<Rightarrow> v)"
| "py_get _ k dflt = Inl AttributeError"

text \<open>\<^verbatim>\<open>d[k]\<close> with a string key: a missing key of a dict is a KeyError, any other
  value refuses a string subscript with a TypeError.\<close>

fun py_getitem :: "json \<Rightarrow> string \<Rightarrow> exn + json" where
  "py_getitem (JObj kvs) k = (case map_of kvs k of None \<Rightarrow> Inl KeyError | Some v \<Rightarrow> Inr v)"
| "py_getitem _ k = Inl TypeError"

text \<open>Python's \<^verbatim>\<open>bool\<close> is a subtype of \<^verbatim>\<open>int\<close>: \<^verbatim>\<open>0 + True\<close> is 1.\<close>

fun as_int :: "json \<Rightarrow> int option" where
  "as_int (JInt i) = Some i"
| "as_int (JBool b) = Some (if b then 1 else 0)"
| "as_int _ = None"

text \<open>\<^verbatim>\<open>for x in v\<close>: a list gives its elements, a dict its keys, a string its
  characters; nothing else is iterable.\<close>

fun py_iter :: "json \<Rightarrow> exn + json list" where
  "py_iter (JList xs) = Inr xs"
| "py_iter (JObj kvs) = Inr (map (\<lambda>kv. JStr (fst kv)) kvs)"
| "py_iter (JStr s) = Inr (map (\<lambda>c. JStr [c]) s)"
| "py_iter _ = Inl TypeError"

text \<open>\<^verbatim>\<open>v[:n]\<close>: lists and strings can be sliced.\<close>

fun py_slice :: "nat \<Rightarrow> json \<Rightarrow> exn + json" where
  "py_slice n (JList xs) = Inr (JList (take n xs))"
| "py_slice n (JStr s) = Inr (JStr (take n s))"
| "py_slice n _ = Inl TypeError"

text \<open>\<^verbatim>\<open>xs[i]\<close> for \<open>i \<ge> 0\<close>.\<close>

definition py_index :: "'a list \<Rightarrow> nat \<Rightarrow> exn + 'a" where
  "py_index xs i = (if i < length xs then Inr (xs ! i) else Inl IndexError)"

text \<open>\<^verbatim>\<open>sum(r.get(k, 0) for r in rs)\<close>, the generator consumed from the left, starting
  from 0.\<close>

fun sum_field :: "string \<Rightarrow> int \<Rightarrow> json list \<Rightarrow> exn + int" where
  "sum_field k acc [] = Inr acc"
| "sum_field k acc (r # rs) =
     and_then (py_get r k (JInt 0)) (\<lambda>v.
       case as_int v of
         None \<Rightarrow> Inl TypeError
       | Some i \<Rightarrow> sum_field k (acc + i) rs)"

text \<open>\<^verbatim>\<open>sum(vs)\<close> over values already at hand.\<close>

fun py_sum :: "int \<Rightarrow> json list \<Rightarrow> exn + int" where
  "py_sum acc [] = Inr acc"
| "py_sum acc (v # vs) =
     (case as_int v of
        None \<Rightarrow> Inl TypeError
      | Some i \<Rightarrow> py_sum (acc + i) vs)"

text \<open>
  \<^verbatim>\<open>str(v)\<close>, as an f-string applies it. Python refuses to write an integer of more than
  4300 digits in decimal (\<^verbatim>\<open>sys.int_info.default_max_str_digits\<close>) with a ValueError; the
  integers inside a list or a dict are written the same way.
\<close>

definition int_printable :: "int \<Rightarrow> bool" where
  "int_printable i = (\<bar>i\<bar> < 10 ^ 4300)"

fun printable :: "json \<Rightarrow> bool" where
  "printable (JInt i) = int_printable i"
| "printable (JList xs) = (\<forall>x \<in> set xs. printable x)"
| "printable (JObj kvs) = (\<forall>kv \<in> set kvs. printable (snd kv))"
| "printable _ = True"

definition str_int :: "int \<Rightarrow> exn + unit" where
  "str_int i = (if int_printable i then Inr () else Inl ValueError)"

definition py_str :: "json \<Rightarrow> exn + unit" where
  "py_str v = (if printable v then Inr () else Inl ValueError)"

subsection \<open>Strings\<close>

text \<open>The characters \<^verbatim>\<open>str.strip()\<close> removes, among the code points below 256.\<close>

definition is_space :: "char \<Rightarrow> bool" where
  "is_space c = (let n = (of_char c :: nat) in
     (9 \<le> n \<and> n \<le> 13) \<or> (28 \<le> n \<and> n \<le> 31) \<or> n = 32 \<or> n = 133 \<or> n = 160)"

definition strip :: "string \<Rightarrow> string" where
  "strip s = rev (dropWhile is_space (rev (dropWhile is_space s)))"

text \<open>\<^verbatim>\<open>s.strip(chars)\<close>.\<close>

definition strip_chars :: "string \<Rightarrow> string \<Rightarrow> string" where
  "strip_chars cs s =
     rev (dropWhile (\<lambda>c. c \<in> set cs) (rev (dropWhile (\<lambda>c. c \<in> set cs) s)))"

text \<open>The text before and after the leftmost occurrence of \<open>sep\<close>, as \<^verbatim>\<open>str.find\<close>
  locates it.\<close>

fun partition_first :: "string \<Rightarrow> string \<Rightarrow> (string \<times> string) option" where
  "partition_first sep [] = (if sep = [] then Some ([], []) else None)"
| "partition_first sep (c # cs) =
     (if take (length sep) (c # cs) = sep then Some ([], drop (length sep) (c # cs))
      else (case partition_first sep cs of
              None \<Rightarrow> None
            | Some (a, b) \<Rightarrow> Some (c # a, b)))"

text \<open>\<^verbatim>\<open>sep in s\<close>.\<close>

definition contains :: "string \<Rightarrow> string \<Rightarrow> bool" where
  "contains sep s = (partition_first sep s \<noteq> None)"

lemma partition_first_decomp:
  "partition_first sep s = Some (a, b) \<Longrightarrow> s = a @ sep @ b"
proof (induction s arbitrary: a b)
  case Nil
  then show ?case by (simp split: if_splits)
next
  case (Cons c cs)
  show ?case
  proof (cases "take (length sep) (c # cs) = sep")
    case True
    with Cons.prems have "a = []" "b = drop (length sep) (c # cs)" by simp_all
    with True show ?thesis by (metis append_Nil append_take_drop_id)
  next
    case False
    with Cons.prems obtain a' where "partition_first sep cs = Some (a', b)" "a = c # a'"
      by (auto split: option.splits)
    with Cons.IH show ?thesis by simp
  qed
qed

lemma partition_first_shorter:
  "partition_first sep s = Some (a, b) \<Longrightarrow> sep \<noteq> [] \<Longrightarrow> length b < length s"
  by (drule partition_first_decomp) (cases sep, simp_all)

text \<open>\<^verbatim>\<open>s.split(sep)\<close>: the pieces between the occurrences of \<open>sep\<close> found from the
  left, each search starting after the previous occurrence. Python raises a ValueError for
  an empty separator; the service passes three literals, none empty.\<close>

function split_py :: "string \<Rightarrow> string \<Rightarrow> string list" where
  "split_py sep s =
     (if sep = [] then [s]
      else (case partition_first sep s of
              None \<Rightarrow> [s]
            | Some (a, b) \<Rightarrow> a # split_py sep b))"
  by pat_completeness auto
termination
  by (relation "measure (\<lambda>(sep, s). length s)") (auto dest: partition_first_shorter)

declare split_py.simps [simp del]

section \<open>The outside world of one request\<close>

text \<open>
  What the hosting API answers to a GET: the request fails in transport
  (\<^verbatim>\<open>httpx.HTTPError\<close>), or a response arrives with a status code and a body;
  \<open>None\<close> is a body \<^verbatim>\<open>response.json()\<close> cannot decode (text that is not JSON, or an
  integer literal of more than 4300 digits, which the decoder refuses); the model raises
  one exception, \<open>JSONDecodeError\<close>, for it.
\<close>

datatype http_reply = TransportError | Response nat "json option"

datatype text_reply = TextTransportError | TextResponse nat string

text \<open>\<^verbatim>\<open>datetime.now(timezone.utc)\<close>: the fields of an aware datetime whose zone is
  always UTC.\<close>

record datetime =
  year :: nat
  month :: nat
  day :: nat
  hour :: nat
  minute :: nat
  second :: nat
  microsecond :: nat

text \<open>
  Everything one request reads from outside the program: the hosting API's answers (by
  user name, and by user name and repository name), what the generator does with the
  prompt of this request (it raises, or it returns a response text), the fresh
  \<^verbatim>\<open>uuid4\<close>, the clock, and whether the driver or the database refuses the document
  of this request for another reason than an integer that does not fit (no connection, a
  document too large, text the encoder cannot write).
\<close>

record env =
  profile_reply :: "string \<Rightarrow> http_reply"
  repos_reply :: "string \<Rightarrow> http_reply"
  readme_reply :: "string \<Rightarrow> json \<Rightarrow> text_reply"
  llm_reply :: "exn + string"
  fresh_id :: string
  clock :: datetime
  insert_refused :: bool

section \<open>GitHubAnalyzer\<close>

text \<open>\<^verbatim>\<open>response.raise_for_status()\<close> raises unless the status is 2xx.\<close>

definition is_success :: "nat \<Rightarrow> bool" where
  "is_success status = (200 \<le> status \<and> status < 300)"

definition get_user_profile :: "env \<Rightarrow> string \<Rightarrow> exn + json" where
  "get_user_profile e username =
     (case profile_reply e username of
        TransportError \<Rightarrow> Inl (HTTPException 500 ''Failed to fetch GitHub profile'')
      | Response status body \<Rightarrow>
          if status = 404 then Inl (HTTPException 404 ''GitHub user not found'')
          else if \<not> is_success status
            then Inl (HTTPException 500 ''Failed to fetch GitHub profile'')
          else (case body of None \<Rightarrow> Inl JSONDecodeError | Some v \<Rightarrow> Inr v))"

definition get_repositories :: "env \<Rightarrow> string \<Rightarrow> exn + json" where
  "get_repositories e username =
     (case repos_reply e username of
        TransportError \<Rightarrow> Inr (JList [])
      | Response status body \<Rightarrow>
          if \<not> is_success status then Inr (JList [])
          else (case body of None \<Rightarrow> Inl JSONDecodeError | Some v \<Rightarrow> Inr v))"

text \<open>The URL of \<^verbatim>\<open>get_readme\<close> is an f-string inside its \<^verbatim>\<open>try\<close>, and the bare
  \<^verbatim>\<open>except\<close> answers \<^verbatim>\<open>None\<close> to whatever is raised.\<close>

definition get_readme :: "env \<Rightarrow> string \<Rightarrow> json \<Rightarrow> string option" where
  "get_readme e username repo =
     (case py_str repo of
        Inl err \<Rightarrow> None
      | Inr _ \<Rightarrow>
          (case readme_reply e username repo of
             TextTransportError \<Rightarrow> None
           | TextResponse status text \<Rightarrow> if status = 200 then Some text else None))"

text \<open>Keys of a \<^verbatim>\<open>dict\<close> must be hashable, and \<^verbatim>\<open>True\<close> and \<^verbatim>\<open>1\<close> are one key.\<close>

fun hashable :: "json \<Rightarrow> bool" where
  "hashable (JList xs) = False"
| "hashable (JObj kvs) = False"
| "hashable _ = True"

fun key_of :: "json \<Rightarrow> json" where
  "key_of (JBool b) = JInt (if b then 1 else 0)"
| "key_of v = v"

definition key_eq :: "json \<Rightarrow> json \<Rightarrow> bool" where
  "key_eq a b = (key_of a = key_of b)"

text \<open>\<^verbatim>\<open>languages[k] = languages.get(k, 0) + 1\<close> on a dict in insertion order.\<close>

fun bump :: "(json \<times> int) list \<Rightarrow> json \<Rightarrow> (json \<times> int) list" where
  "bump [] k = [(k, 1)]"
| "bump ((k', n) # rest) k =
     (if key_eq k' k then (k', n + 1) # rest else (k', n) # bump rest k)"

text \<open>The body of \<^verbatim>\<open>for repo in repos[:10]\<close>; the state is \<open>(languages,
  repos_with_readme, repos_with_description)\<close>.\<close>

fun scan_repos ::
  "env \<Rightarrow> string \<Rightarrow> json list \<Rightarrow> (json \<times> int) list \<times> int \<times> int
     \<Rightarrow> exn + ((json \<times> int) list \<times> int \<times> int)" where
  "scan_repos e username [] st = Inr st"
| "scan_repos e username (repo # rest) (languages, with_readme, with_description) =
     and_then (py_get repo ''language'' JNull) (\<lambda>lang.
     and_then (if truthy lang
               then (if hashable lang then Inr (bump languages lang) else Inl TypeError)
               else Inr languages) (\<lambda>languages'.
     and_then (py_get repo ''description'' JNull) (\<lambda>descr.
     and_then (py_getitem repo ''name'') (\<lambda>name.
       scan_repos e username rest
         (languages',
          (case get_readme e username name of
             None \<Rightarrow> with_readme
           | Some text \<Rightarrow> if text \<noteq> [] then with_readme + 1 else with_readme),
          (if truthy descr then with_description + 1 else with_description))))))"

text \<open>The dict \<^verbatim>\<open>analyze_profile\<close> returns, its \<^verbatim>\<open>"stats"\<close> dict flattened: every key
  is a literal of the source.\<close>

record summary =
  profile :: json
  repositories :: json
  public_repos :: json
  followers :: json
  following :: json
  total_stars :: int
  total_forks :: int
  languages :: "(json \<times> int) list"
  repos_with_readme :: int
  repos_with_description :: int
  top_repos :: json

definition analyze_profile :: "env \<Rightarrow> string \<Rightarrow> exn + summary" where
  "analyze_profile e username =
     and_then (get_user_profile e username) (\<lambda>prof.
     and_then (get_repositories e username) (\<lambda>repos.
     and_then (py_iter repos) (\<lambda>all_repos.
     and_then (sum_field ''stargazers_count'' 0 all_repos) (\<lambda>stars.
     and_then (sum_field ''forks_count'' 0 all_repos) (\<lambda>forks.
     and_then (py_slice 10 repos) (\<lambda>top.
     and_then (py_iter top) (\<lambda>top_list.
     and_then (scan_repos e username top_list ([], 0, 0)) (\<lambda>(langs, with_readme, with_descr).
     and_then (py_get prof ''public_repos'' (JInt 0)) (\<lambda>n_public.
     and_then (py_get prof ''followers'' (JInt 0)) (\<lambda>n_followers.
     and_then (py_get prof ''following'' (JInt 0)) (\<lambda>n_following.
     and_then (py_slice 10 repos) (\<lambda>top'.
       Inr \<lparr> profile = prof, repositories = repos, public_repos = n_public,
             followers = n_followers, following = n_following,
             total_stars = stars, total_forks = forks, languages = langs,
             repos_with_readme = with_readme, repos_with_description = with_descr,
             top_repos = top' \<rparr>))))))))))))"

section \<open>AIAnalyzer\<close>

fun is_str :: "json \<Rightarrow> bool" where
  "is_str (JStr s) = True"
| "is_str _ = False"

text \<open>\<^verbatim>\<open>_format_repos\<close>: one prompt line per repository, each value looked up and
  written in the order the f-string does it. The text of the prompt is read by the
  generator only; the model keeps the points where building it can raise.\<close>

fun format_repos :: "json list \<Rightarrow> exn + unit" where
  "format_repos [] = Inr ()"
| "format_repos (repo # rest) =
     and_then (py_getitem repo ''name'') (\<lambda>name.
     and_then (py_str name) (\<lambda>_.
     and_then (py_get repo ''description'' (JStr ''No description'')) (\<lambda>descr.
     and_then (py_str descr) (\<lambda>_.
     and_then (py_get repo ''stargazers_count'' (JInt 0)) (\<lambda>stars.
     and_then (py_str stars) (\<lambda>_.
     and_then (py_get repo ''language'' (JStr ''N/A'')) (\<lambda>lang.
     and_then (py_str lang) (\<lambda>_.
       format_repos rest))))))))"

text \<open>The f-string of \<^verbatim>\<open>generate_analysis\<close>, which stands before its \<^verbatim>\<open>try\<close>, field
  by field in the order of lines 177 to 189: every value is written with \<^verbatim>\<open>str\<close>, and
  \<^verbatim>\<open>', '.join(...)\<close> raises a TypeError on a key that is not a string.\<close>

definition render_prompt :: "summary \<Rightarrow> exn + unit" where
  "render_prompt s =
     and_then (py_get (profile s) ''login'' JNull) (\<lambda>login.
     and_then (py_get (profile s) ''name'' login) (\<lambda>name.
     and_then (py_str name) (\<lambda>_.
     and_then (py_str (public_repos s)) (\<lambda>_.
     and_then (py_str (followers s)) (\<lambda>_.
     and_then (str_int (total_stars s)) (\<lambda>_.
     and_then (str_int (total_forks s)) (\<lambda>_.
     and_then (if list_all is_str (map fst (languages s)) then Inr () else Inl TypeError) (\<lambda>_.
     and_then (str_int (repos_with_readme s)) (\<lambda>_.
     and_then (str_int (repos_with_description s)) (\<lambda>_.
     and_then (py_get (profile s) ''bio'' (JStr ''Not provided'')) (\<lambda>bio.
     and_then (py_str bio) (\<lambda>_.
     and_then (py_get (profile s) ''location'' (JStr ''Not provided'')) (\<lambda>location.
     and_then (py_str location) (\<lambda>_.
     and_then (py_slice 5 (top_repos s)) (\<lambda>top5.
     and_then (py_iter top5) format_repos)))))))))))))))"

definition default_analysis :: json where
  "default_analysis = JObj
     [(''score_breakdown'', JObj
         [(''documentation'', JInt 60),
          (''code_structure'', JInt 65),
          (''activity_consistency'', JInt 55),
          (''repository_organization'', JInt 60),
          (''project_impact'', JInt 50),
          (''technical_depth'', JInt 60)]),
      (''strengths'', JList
         [JStr ''Active GitHub presence'',
          JStr ''Multiple programming languages'',
          JStr ''Public repositories available'']),
      (''weaknesses'', JList
         [JStr ''Analysis incomplete - AI service temporarily unavailable'',
          JStr ''Consider adding more detailed README files'',
          JStr ''Enhance project descriptions'']),
      (''recommendations'', JList
         [JStr ''Add comprehensive README files to all repositories'',
          JStr ''Include project setup instructions and usage examples'',
          JStr ''Write detailed commit messages'',
          JStr ''Contribute to open source projects'',
          JStr ''Pin your best projects to your profile''])]"

text \<open>The fence surgery on the response text, up to the argument of \<^verbatim>\<open>json.loads\<close>
  before its own \<^verbatim>\<open>strip()\<close>.\<close>

definition fenced_text :: "string \<Rightarrow> exn + string" where
  "fenced_text response =
     (let response_text = strip response in
      if contains ''```json'' response_text
        then and_then (py_index (split_py ''```json'' response_text) 1) (\<lambda>piece.
               py_index (split_py ''```'' piece) 0)
      else if contains ''```'' response_text
        then and_then (py_index (split_py ''```'' response_text) 1) (\<lambda>piece.
               py_index (split_py ''```'' piece) 0)
      else Inr response_text)"

text \<open>The body of the \<^verbatim>\<open>try\<close>: \<^verbatim>\<open>json.loads\<close> is the parameter \<open>loads\<close>, \<open>None\<close>
  where it raises.\<close>

definition parse_response :: "(string \<Rightarrow> json option) \<Rightarrow> exn + string \<Rightarrow> exn + json" where
  "parse_response loads reply =
     and_then reply (\<lambda>response.
     and_then (fenced_text response) (\<lambda>response_text.
       case loads (strip response_text) of
         None \<Rightarrow> Inl JSONDecodeError
       | Some analysis \<Rightarrow> Inr analysis))"

text \<open>\<^verbatim>\<open>except Exception\<close> turns every exception of the \<^verbatim>\<open>try\<close> into the default.\<close>

definition generate_analysis ::
  "(string \<Rightarrow> json option) \<Rightarrow> exn + string \<Rightarrow> summary \<Rightarrow> exn + json" where
  "generate_analysis loads reply github_data =
     and_then (render_prompt github_data) (\<lambda>_.
       case parse_response loads reply of
         Inl e \<Rightarrow> Inr default_analysis
       | Inr analysis \<Rightarrow> Inr analysis)"

section \<open>Timestamps as ISO-8601 text\<close>

text \<open>
  \<^verbatim>\<open>datetime.isoformat\<close> and \<^verbatim>\<open>datetime.fromisoformat\<close> belong to Python's standard
  library. They are modelled after its documentation, for aware datetimes in UTC:
  \<^verbatim>\<open>YYYY-MM-DDTHH:MM:SS+00:00\<close> when the microsecond is 0 and
  \<^verbatim>\<open>YYYY-MM-DDTHH:MM:SS.ffffff+00:00\<close> otherwise. \<open>fromisoformat\<close> reads these two layouts
  (the ones this service stores) and is \<open>None\<close>, a ValueError, on any other text, although
  Python reads further layouts.
\<close>

definition is_leap :: "nat \<Rightarrow> bool" where
  "is_leap y = (y mod 4 = 0 \<and> (y mod 100 \<noteq> 0 \<or> y mod 400 = 0))"

definition days_in_month :: "nat \<Rightarrow> nat \<Rightarrow> nat" where
  "days_in_month y m =
     (if m = 2 then (if is_leap y then 29 else 28)
      else if m \<in> {4, 6, 9, 11} then 30 else 31)"

text \<open>The values a Python \<^verbatim>\<open>datetime\<close> can hold.\<close>

definition valid_datetime :: "datetime \<Rightarrow> bool" where
  "valid_datetime d =
     (1 \<le> year d \<and> year d \<le> 9999 \<and> 1 \<le> month d \<and> month d \<le> 12 \<and>
      1 \<le> day d \<and> day d \<le> days_in_month (year d) (month d) \<and>
      hour d < 24 \<and> minute d < 60 \<and> second d < 60 \<and> microsecond d < 1000000)"

definition digit :: "nat \<Rightarrow> char" where
  "digit n = char_of (48 + n mod 10)"

text \<open>\<^verbatim>\<open>"%0kd" % n\<close> for \<open>n < 10 ^ k\<close>.\<close>

fun zfill :: "nat \<Rightarrow> nat \<Rightarrow> string" where
  "zfill 0 n = []"
| "zfill (Suc k) n = zfill k (n div 10) @ [digit n]"

definition isoformat :: "datetime \<Rightarrow> string" where
  "isoformat d =
     zfill 4 (year d) @ ''-'' @ zfill 2 (month d) @ ''-'' @ zfill 2 (day d) @ ''T'' @
     zfill 2 (hour d) @ '':'' @ zfill 2 (minute d) @ '':'' @ zfill 2 (second d) @
     (if microsecond d \<noteq> 0 then ''.'' @ zfill 6 (microsecond d) else []) @ ''+00:00''"

definition digit_value :: "char \<Rightarrow> nat option" where
  "digit_value c =
     (let n = (of_char c :: nat) in if 48 \<le> n \<and> n \<le> 57 then Some (n - 48) else None)"

fun parse_digits :: "nat \<Rightarrow> string \<Rightarrow> nat option" where
  "parse_digits acc [] = Some acc"
| "parse_digits acc (c # cs) =
     (case digit_value c of
        None \<Rightarrow> None
      | Some v \<Rightarrow> parse_digits (acc * 10 + v) cs)"

text \<open>The characters of \<open>s\<close> from position \<open>i\<close> up to, not including, \<open>j\<close>.\<close>

definition substr :: "nat \<Rightarrow> nat \<Rightarrow> string \<Rightarrow> string" where
  "substr i j s = take (j - i) (drop i s)"

definition fromisoformat :: "string \<Rightarrow> datetime option" where
  "fromisoformat s =
     (if (length s = 25 \<and> substr 19 25 s = ''+00:00'' \<or>
          length s = 32 \<and> substr 19 20 s = ''.'' \<and> substr 26 32 s = ''+00:00'') \<and>
         substr 4 5 s = ''-'' \<and> substr 7 8 s = ''-'' \<and> substr 10 11 s = ''T'' \<and>
         substr 13 14 s = '':'' \<and> substr 16 17 s = '':''
      then
        (case (parse_digits 0 (substr 0 4 s), parse_digits 0 (substr 5 7 s),
               parse_digits 0 (substr 8 10 s), parse_digits 0 (substr 11 13 s),
               parse_digits 0 (substr 14 16 s), parse_digits 0 (substr 17 19 s),
               if length s = 25 then Some 0 else parse_digits 0 (substr 20 26 s)) of
           (Some y, Some mo, Some dd, Some h, Some mi, Some sec, Some us) \<Rightarrow>
             (let d = \<lparr> year = y, month = mo, day = dd, hour = h, minute = mi,
                        second = sec, microsecond = us \<rparr>
              in if valid_datetime d then Some d else None)
         | _ \<Rightarrow> None)
      else None)"

text \<open>Earlier-or-equal on instants of one zone: the fields compared from the year down.\<close>

definition chrono :: "datetime \<Rightarrow> nat list" where
  "chrono d = [year d, month d, day d, hour d, minute d, second d, microsecond d]"

section \<open>The request handlers\<close>

record ScoreBreakdown =
  documentation :: int
  code_structure :: int
  activity_consistency :: int
  repository_organization :: int
  project_impact :: int
  technical_depth :: int

text \<open>The \<^verbatim>\<open>profile_data\<close> dict of the handler, every key a literal of the source.\<close>

record profile_data =
  pd_name :: json
  pd_bio :: json
  pd_avatar_url :: json
  pd_public_repos :: json
  pd_followers :: json
  pd_total_stars :: int
  pd_languages :: "(json \<times> int) list"

text \<open>\<^verbatim>\<open>Analysis\<close> with a \<open>datetime\<close> as its timestamp; the document written to the
  store is the same record with the timestamp as text.\<close>

record 'ts Analysis =
  analysis_id :: string
  username :: string
  overall_score :: int
  score_breakdown :: ScoreBreakdown
  strengths :: "string list"
  weaknesses :: "string list"
  recommendations :: "string list"
  profile_info :: profile_data
  timestamp :: 'ts

text \<open>An HTTP response: 200 with a body, or an \<open>HTTPException\<close> with its status and
  detail. The detail of the handlers' last \<^verbatim>\<open>except\<close> embeds \<^verbatim>\<open>str(e)\<close>, kept here as the
  exception itself.\<close>

datatype detail = Detail string | AnalysisFailed exn

datatype 'a http_result = Ok200 'a | Failed nat detail

text \<open>Lines 297 to 299 of the handler.\<close>

definition derive_username :: "string \<Rightarrow> string" where
  "derive_username github_url =
     (let username = strip github_url in
      if contains ''github.com/'' username
        then strip_chars ''/'' (last (split_py ''github.com/'' username))
      else username)"

text \<open>\<^verbatim>\<open>sum(breakdown.values()) // len(breakdown)\<close>: only a dict has \<^verbatim>\<open>values\<close>; the sum is
  taken first, then the floor division by the number of entries.\<close>

fun compute_overall :: "json \<Rightarrow> exn + int" where
  "compute_overall (JObj kvs) =
     and_then (py_sum 0 (map snd kvs)) (\<lambda>total.
       if length kvs = 0 then Inl ZeroDivisionError
       else Inr (total div int (length kvs)))"
| "compute_overall _ = Inl AttributeError"

text \<open>
  The validation pydantic runs when the models are built (version 2, lax mode): an
  \<^verbatim>\<open>int\<close> field takes an integer or a bool, a \<^verbatim>\<open>List[str]\<close> field takes a list of strings,
  a field that is missing is an error and an extra one is dropped.
\<close>

definition int_field :: "(string \<times> json) list \<Rightarrow> string \<Rightarrow> exn + int" where
  "int_field kvs k =
     (case map_of kvs k of
        None \<Rightarrow> Inl ValidationError
      | Some v \<Rightarrow> (case as_int v of None \<Rightarrow> Inl ValidationError | Some i \<Rightarrow> Inr i))"

fun validate_breakdown :: "json \<Rightarrow> exn + ScoreBreakdown" where
  "validate_breakdown (JObj kvs) =
     and_then (int_field kvs ''documentation'') (\<lambda>a.
     and_then (int_field kvs ''code_structure'') (\<lambda>b.
     and_then (int_field kvs ''activity_consistency'') (\<lambda>c.
     and_then (int_field kvs ''repository_organization'') (\<lambda>d.
     and_then (int_field kvs ''project_impact'') (\<lambda>e.
     and_then (int_field kvs ''technical_depth'') (\<lambda>f.
       Inr \<lparr> documentation = a, code_structure = b, activity_consistency = c,
             repository_organization = d, project_impact = e, technical_depth = f \<rparr>))))))"
| "validate_breakdown _ = Inl TypeError"

fun str_items :: "json list \<Rightarrow> string list option" where
  "str_items [] = Some []"
| "str_items (JStr s # vs) = map_option (\<lambda>ss. s # ss) (str_items vs)"
| "str_items (_ # vs) = None"

fun validate_str_list :: "json \<Rightarrow> exn + string list" where
  "validate_str_list (JList vs) =
     (case str_items vs of None \<Rightarrow> Inl ValidationError | Some ss \<Rightarrow> Inr ss)"
| "validate_str_list _ = Inl ValidationError"

text \<open>Lines 310 to 330: from the scoring payload to the \<^verbatim>\<open>Analysis\<close> object.\<close>

definition build_analysis ::
  "env \<Rightarrow> string \<Rightarrow> summary \<Rightarrow> json \<Rightarrow> exn + datetime Analysis" where
  "build_analysis e name github_data ai_analysis =
     and_then (py_getitem ai_analysis ''score_breakdown'') (\<lambda>breakdown.
     and_then (compute_overall breakdown) (\<lambda>overall.
     and_then (validate_breakdown breakdown) (\<lambda>scores.
     and_then (py_getitem ai_analysis ''strengths'') (\<lambda>s_raw.
     and_then (py_getitem ai_analysis ''weaknesses'') (\<lambda>w_raw.
     and_then (py_getitem ai_analysis ''recommendations'') (\<lambda>r_raw.
     and_then (py_get (profile github_data) ''name'' (JStr name)) (\<lambda>p_name.
     and_then (py_get (profile github_data) ''bio'' (JStr [])) (\<lambda>p_bio.
     and_then (py_get (profile github_data) ''avatar_url'' (JStr [])) (\<lambda>p_avatar.
     and_then (validate_str_list s_raw) (\<lambda>s_list.
     and_then (validate_str_list w_raw) (\<lambda>w_list.
     and_then (validate_str_list r_raw) (\<lambda>r_list.
       Inr \<lparr> analysis_id = fresh_id e, username = name, overall_score = overall,
             score_breakdown = scores, strengths = s_list, weaknesses = w_list,
             recommendations = r_list,
             profile_info = \<lparr> pd_name = p_name, pd_bio = p_bio, pd_avatar_url = p_avatar,
               pd_public_repos = public_repos github_data,
               pd_followers = followers github_data,
               pd_total_stars = total_stars github_data,
               pd_languages = languages github_data \<rparr>,
             timestamp = clock e \<rparr>))))))))))))"

text \<open>\<^verbatim>\<open>doc = analysis.model_dump(); doc['timestamp'] = doc['timestamp'].isoformat()\<close>.\<close>

definition to_document :: "datetime Analysis \<Rightarrow> string Analysis" where
  "to_document a =
     \<lparr> analysis_id = analysis_id a, username = username a, overall_score = overall_score a,
       score_breakdown = score_breakdown a, strengths = strengths a,
       weaknesses = weaknesses a, recommendations = recommendations a,
       profile_info = profile_info a, timestamp = isoformat (timestamp a) \<rparr>"

text \<open>The \<^verbatim>\<open>try\<close> body of \<^verbatim>\<open>analyze_github_profile\<close> up to the record to persist.\<close>

definition run_analysis ::
  "(string \<Rightarrow> json option) \<Rightarrow> env \<Rightarrow> string \<Rightarrow> exn + datetime Analysis" where
  "run_analysis loads e github_url =
     (let name = derive_username github_url in
      and_then (analyze_profile e name) (\<lambda>github_data.
      and_then (generate_analysis loads (llm_reply e) github_data) (\<lambda>ai_analysis.
        build_analysis e name github_data ai_analysis)))"

text \<open>
  What the driver's BSON encoder takes: an integer must fit in 8 bytes, wherever it stands
  in the document, or the encoder raises an OverflowError. (A key of the tally that is not
  a string cannot reach the encoder: the prompt is built first.)
\<close>

definition int64 :: "int \<Rightarrow> bool" where
  "int64 i = (- (2 ^ 63) \<le> i \<and> i < 2 ^ 63)"

fun bson_ints :: "json \<Rightarrow> bool" where
  "bson_ints (JInt i) = int64 i"
| "bson_ints (JList xs) = (\<forall>x \<in> set xs. bson_ints x)"
| "bson_ints (JObj kvs) = (\<forall>kv \<in> set kvs. bson_ints (snd kv))"
| "bson_ints _ = True"

definition encodable :: "string Analysis \<Rightarrow> bool" where
  "encodable doc =
     (int64 (overall_score doc) \<and>
      int64 (documentation (score_breakdown doc)) \<and>
      int64 (code_structure (score_breakdown doc)) \<and>
      int64 (activity_consistency (score_breakdown doc)) \<and>
      int64 (repository_organization (score_breakdown doc)) \<and>
      int64 (project_impact (score_breakdown doc)) \<and>
      int64 (technical_depth (score_breakdown doc)) \<and>
      bson_ints (pd_name (profile_info doc)) \<and>
      bson_ints (pd_bio (profile_info doc)) \<and>
      bson_ints (pd_avatar_url (profile_info doc)) \<and>
      bson_ints (pd_public_repos (profile_info doc)) \<and>
      bson_ints (pd_followers (profile_info doc)) \<and>
      int64 (pd_total_stars (profile_info doc)) \<and>
      list_all (\<lambda>kn. int64 (snd kn)) (pd_languages (profile_info doc)))"

text \<open>\<^verbatim>\<open>await db.analyses.insert_one(doc)\<close>: the store is the list of the documents of the
  collection in insertion order; the insert appends to it unless the encoder or the
  database refuses the document.\<close>

definition insert_one ::
  "env \<Rightarrow> string Analysis list \<Rightarrow> string Analysis \<Rightarrow> exn + string Analysis list" where
  "insert_one e store doc =
     (if \<not> encodable doc then Inl OverflowError
      else if insert_refused e then Inl PyMongoError
      else Inr (store @ [doc]))"

text \<open>
  POST \<^verbatim>\<open>/api/analyze\<close>. The insert and the log line after it (line 337, which writes the
  overall score) stand inside the \<^verbatim>\<open>try\<close>. \<^verbatim>\<open>except HTTPException: raise\<close> keeps status
  and detail, every other exception becomes a 500.
\<close>

definition analyze_github_profile ::
  "(string \<Rightarrow> json option) \<Rightarrow> env \<Rightarrow> string Analysis list \<Rightarrow> string
     \<Rightarrow> datetime Analysis http_result \<times> string Analysis list" where
  "analyze_github_profile loads e store github_url =
     (case run_analysis loads e github_url of
        Inr analysis \<Rightarrow>
          (case insert_one e store (to_document analysis) of
             Inl err \<Rightarrow> (Failed 500 (AnalysisFailed err), store)
           | Inr store' \<Rightarrow>
               (case str_int (overall_score analysis) of
                  Inl err \<Rightarrow> (Failed 500 (AnalysisFailed err), store')
                | Inr _ \<Rightarrow> (Ok200 analysis, store')))
      | Inl (HTTPException status text) \<Rightarrow> (Failed status (Detail text), store)
      | Inl err \<Rightarrow> (Failed 500 (AnalysisFailed err), store))"

text \<open>The loop of \<^verbatim>\<open>get_recent_analyses\<close>: every document's timestamp, a \<^verbatim>\<open>str\<close>, goes
  through \<^verbatim>\<open>datetime.fromisoformat\<close>.\<close>

definition from_document :: "string Analysis \<Rightarrow> exn + datetime Analysis" where
  "from_document doc =
     (case fromisoformat (timestamp doc) of
        None \<Rightarrow> Inl ValueError
      | Some t \<Rightarrow>
          Inr \<lparr> analysis_id = analysis_id doc, username = username doc,
                overall_score = overall_score doc, score_breakdown = score_breakdown doc,
                strengths = strengths doc, weaknesses = weaknesses doc,
                recommendations = recommendations doc, profile_info = profile_info doc,
                timestamp = t \<rparr>)"

fun from_documents :: "string Analysis list \<Rightarrow> exn + datetime Analysis list" where
  "from_documents [] = Inr []"
| "from_documents (doc # docs) =
     and_then (from_document doc) (\<lambda>a.
     and_then (from_documents docs) (\<lambda>as. Inr (a # as)))"

text \<open>\<^verbatim>\<open>find({}, {"_id": 0}).sort("timestamp", -1).limit(10)\<close>: the documents in
  descending order of the stored text, compared code point by code point, the first ten
  of them. The database leaves the order of equal keys open; the model takes the reverse
  of a stable ascending sort.\<close>

definition find_recent :: "string Analysis list \<Rightarrow> string Analysis list" where
  "find_recent store = take 10 (rev (sort_key timestamp store))"

text \<open>GET \<^verbatim>\<open>/api/analyses\<close>. The documents are those the service wrote, so that the
  response model accepts each of them once its timestamp is read.\<close>

definition get_recent_analyses :: "string Analysis list \<Rightarrow> datetime Analysis list http_result" where
  "get_recent_analyses store =
     (case from_documents (find_recent store) of
        Inr analyses \<Rightarrow> Ok200 analyses
      | Inl err \<Rightarrow> Failed 500 (Detail ''Failed to fetch analyses''))"

section \<open>Notions the statements use\<close>

subsection \<open>The six fields of a breakdown\<close>

text \<open>What a statement about "exactly the six integer fields" refers to: the entries of
  the \<^verbatim>\<open>score_breakdown\<close> dict are the six names, once each, and every value is an
  integer. \<open>field_value\<close> reads one of them.\<close>

definition breakdown_fields :: "string list" where
  "breakdown_fields =
     [''documentation'', ''code_structure'', ''activity_consistency'',
      ''repository_organization'', ''project_impact'', ''technical_depth'']"

fun is_int :: "json \<Rightarrow> bool" where
  "is_int (JInt i) = True"
| "is_int _ = False"

definition exactly_six_ints :: "(string \<times> json) list \<Rightarrow> bool" where
  "exactly_six_ints kvs =
     (distinct (map fst kvs) \<and> set (map fst kvs) = set breakdown_fields \<and>
      list_all is_int (map snd kvs))"

definition field_value :: "(string \<times> json) list \<Rightarrow> string \<Rightarrow> int" where
  "field_value kvs k =
     (case map_of kvs k of
        None \<Rightarrow> 0
      | Some v \<Rightarrow> (case as_int v of None \<Rightarrow> 0 | Some i \<Rightarrow> i))"

text \<open>The sum of the six fields.\<close>

definition breakdown_total :: "(string \<times> json) list \<Rightarrow> int" where
  "breakdown_total kvs = (\<Sum>k\<leftarrow>breakdown_fields. field_value kvs k)"

subsection \<open>The expected shape of a scoring payload\<close>

text \<open>The prompt asks for an object with the keys \<^verbatim>\<open>score_breakdown\<close> (an object with the
  six fields), \<^verbatim>\<open>strengths\<close>, \<^verbatim>\<open>weaknesses\<close> and \<^verbatim>\<open>recommendations\<close>. A value lacks that
  shape when it is not an object or one of these keys or fields is missing.\<close>

fun lacks_expected_shape :: "json \<Rightarrow> bool" where
  "lacks_expected_shape (JObj kvs) =
     (map_of kvs ''strengths'' = None \<or> map_of kvs ''weaknesses'' = None \<or>
      map_of kvs ''recommendations'' = None \<or>
      (case map_of kvs ''score_breakdown'' of
         Some (JObj entries) \<Rightarrow> list_ex (\<lambda>k. map_of entries k = None) breakdown_fields
       | _ \<Rightarrow> True))"
| "lacks_expected_shape _ = True"

text \<open>Whether an exception is FastAPI's \<^verbatim>\<open>HTTPException\<close>, which the handler re-raises.\<close>

fun is_http_exception :: "exn \<Rightarrow> bool" where
  "is_http_exception (HTTPException status text) = True"
| "is_http_exception _ = False"

text \<open>A repository the prompt can be built from: a dict with a \<^verbatim>\<open>name\<close>.\<close>

fun named_dict :: "json \<Rightarrow> bool" where
  "named_dict (JObj kvs) = (map_of kvs ''name'' \<noteq> None)"
| "named_dict _ = False"

subsection \<open>What one repository contributes to the aggregate\<close>

text \<open>The number \<^verbatim>\<open>repo.get(k, 0)\<close> adds to a sum, whether the loop counts the repository as
  described, as having a README, and as written in the language \<open>l\<close>; and
  \<^verbatim>\<open>languages.get(l, 0)\<close> on the tally.\<close>

definition count_of :: "string \<Rightarrow> json \<Rightarrow> int" where
  "count_of k r =
     (case py_get r k (JInt 0) of
        Inl err \<Rightarrow> 0
      | Inr v \<Rightarrow> (case as_int v of None \<Rightarrow> 0 | Some i \<Rightarrow> i))"

definition has_description :: "json \<Rightarrow> bool" where
  "has_description r =
     (case py_get r ''description'' JNull of Inl err \<Rightarrow> False | Inr v \<Rightarrow> truthy v)"

definition has_readme :: "env \<Rightarrow> string \<Rightarrow> json \<Rightarrow> bool" where
  "has_readme e u r =
     (case py_getitem r ''name'' of
        Inl err \<Rightarrow> False
      | Inr name \<Rightarrow> (case get_readme e u name of None \<Rightarrow> False | Some text \<Rightarrow> text \<noteq> []))"

definition has_language :: "json \<Rightarrow> json \<Rightarrow> bool" where
  "has_language l r =
     (case py_get r ''language'' JNull of
        Inl err \<Rightarrow> False
      | Inr v \<Rightarrow> truthy v \<and> key_eq v l)"

fun tally_get :: "(json \<times> int) list \<Rightarrow> json \<Rightarrow> int" where
  "tally_get [] l = 0"
| "tally_get ((k, n) # rest) l = (if key_eq k l then n else tally_get rest l)"

subsection \<open>Marked-off parts of a text\<close>

text \<open>The part of \<open>s\<close> before the first occurrence of \<open>sep\<close> (all of \<open>s\<close> when there is
  none) and the part after it (nothing when there is none).\<close>

definition before_first :: "string \<Rightarrow> string \<Rightarrow> string" where
  "before_first sep s = (case partition_first sep s of None \<Rightarrow> s | Some (a, b) \<Rightarrow> a)"

definition after_first :: "string \<Rightarrow> string \<Rightarrow> string" where
  "after_first sep s = (case partition_first sep s of None \<Rightarrow> [] | Some (a, b) \<Rightarrow> b)"

text \<open>The choice of the text for the parser in the words of the specification: the content
  between the first \<^verbatim>\<open>```json\<close> marker and the next \<^verbatim>\<open>```\<close> marker; otherwise the content of
  the first block between \<^verbatim>\<open>```\<close> markers; otherwise the stripped text. A block that is not
  closed runs to the end of the text.\<close>

definition claimed_fenced_text :: "string \<Rightarrow> string" where
  "claimed_fenced_text response =
     (let t = strip response in
      if contains ''```json'' t then before_first ''```'' (after_first ''```json'' t)
      else if contains ''```'' t then before_first ''```'' (after_first ''```'' t)
      else t)"

subsection \<open>The record of a fallback\<close>

text \<open>What the specification promises when the scoring fails: the record with the fixed
  default breakdown 60, 65, 55, 60, 50, 60, the overall score 58 and the fixed lists, for
  the user \<open>name\<close> and the aggregate \<open>gd\<close>, carrying the fresh id and the time stamp
  \<open>ts\<close>. \<open>profile_entry\<close> is the entry of the profile under a key, \<open>d\<close> when there is
  none.\<close>

definition profile_entry :: "json \<Rightarrow> string \<Rightarrow> json \<Rightarrow> json" where
  "profile_entry p k d =
     (case p of
        JObj kvs \<Rightarrow> (case map_of kvs k of None \<Rightarrow> d | Some v \<Rightarrow> v)
      | _ \<Rightarrow> d)"

definition fallback_record :: "env \<Rightarrow> string \<Rightarrow> summary \<Rightarrow> 'ts \<Rightarrow> 'ts Analysis" where
  "fallback_record e name gd ts =
     \<lparr> analysis_id = fresh_id e, username = name, overall_score = 58,
       score_breakdown =
         \<lparr> documentation = 60, code_structure = 65, activity_consistency = 55,
           repository_organization = 60, project_impact = 50, technical_depth = 60 \<rparr>,
       strengths =
         [''Active GitHub presence'', ''Multiple programming languages'',
          ''Public repositories available''],
       weaknesses =
         [''Analysis incomplete - AI service temporarily unavailable'',
          ''Consider adding more detailed README files'',
          ''Enhance project descriptions''],
       recommendations =
         [''Add comprehensive README files to all repositories'',
          ''Include project setup instructions and usage examples'',
          ''Write detailed commit messages'',
          ''Contribute to open source projects'',
          ''Pin your best projects to your profile''],
       profile_info =
         \<lparr> pd_name = profile_entry (profile gd) ''name'' (JStr name),
           pd_bio = profile_entry (profile gd) ''bio'' (JStr []),
           pd_avatar_url = profile_entry (profile gd) ''avatar_url'' (JStr []),
           pd_public_repos = public_repos gd, pd_followers = followers gd,
           pd_total_stars = total_stars gd, pd_languages = languages gd \<rparr>,
       timestamp = ts \<rparr>"

subsection \<open>A user name as a path segment\<close>

text \<open>The user name in the words of the specification: the stripped input when it does not
  contain the host; otherwise the last path segment of what follows the host, the slashes
  at its ends trimmed, where the segments of a path are the pieces between its slashes.\<close>

definition claimed_username :: "string \<Rightarrow> string" where
  "claimed_username github_url =
     (let t = strip github_url in
      if contains ''github.com/'' t
        then last (split_py ''/'' (strip_chars ''/'' (after_first ''github.com/'' t)))
      else t)"

subsection \<open>The states of the store\<close>

text \<open>The stores the service can have: the empty collection, and every store a request to
  POST \<^verbatim>\<open>/api/analyze\<close> leaves behind, whatever the outside world answers, the clock
  showing a time a Python \<^verbatim>\<open>datetime\<close> can hold.\<close>

inductive reachable :: "string Analysis list \<Rightarrow> bool" where
  empty_store: "reachable []"
| handled:
    "reachable store \<Longrightarrow> valid_datetime (clock e) \<Longrightarrow>
     analyze_github_profile loads e store github_url = (response, store') \<Longrightarrow>
     reachable store'"

text \<open>A document whose timestamp is text in the layout \<^verbatim>\<open>isoformat\<close> writes.\<close>

definition written_by_service :: "string Analysis \<Rightarrow> bool" where
  "written_by_service doc =
     (case fromisoformat (timestamp doc) of
        None \<Rightarrow> False
      | Some d \<Rightarrow> isoformat d = timestamp doc)"

section \<open>Concrete inputs\<close>

text \<open>A decoder that knows two texts; a clock reading; a world in which the hosting API
  knows the user \<open>octocat\<close>, with the repository list and the generator's answer left
  open; and the world \<open>octocat_env\<close>, in which \<open>octocat\<close> has two repositories and the
  generator is down.\<close>

definition table_loads :: "string \<Rightarrow> json option" where
  "table_loads s =
     (if s = ''[1, 2]'' then Some (JList [JInt 1, JInt 2])
      else if s = ''{}'' then Some (JObj [])
      else None)"

definition sample_time :: datetime where
  "sample_time =
     \<lparr> year = 2024, month = 1, day = 15, hour = 10, minute = 30, second = 0,
       microsecond = 123456 \<rparr>"

definition octocat_repos :: json where
  "octocat_repos = JList
     [JObj [(''name'', JStr ''hello''), (''language'', JStr ''Python''),
            (''stargazers_count'', JInt 3)],
      JObj [(''name'', JStr ''world''), (''description'', JStr ''x''),
            (''forks_count'', JInt 2)]]"

definition world :: "json \<Rightarrow> exn + string \<Rightarrow> env" where
  "world repos reply =
     \<lparr> profile_reply = (\<lambda>u. if u = ''octocat''
          then Response 200
                 (Some (JObj [(''login'', JStr ''octocat''), (''public_repos'', JInt 2)]))
          else Response 404 None),
       repos_reply = (\<lambda>u. Response 200 (Some repos)),
       readme_reply = (\<lambda>u r. if r = JStr ''hello'' then TextResponse 200 ''# hi''
                              else TextResponse 404 []),
       llm_reply = reply,
       fresh_id = ''id-1'',
       clock = sample_time,
       insert_refused = False \<rparr>"

definition octocat_env :: env where
  "octocat_env = world octocat_repos (Inl GeneratorError)"

text \<open>What the service computes for \<open>octocat\<close> in that world.\<close>

definition octocat_summary :: summary where
  "octocat_summary =
     \<lparr> profile = JObj [(''login'', JStr ''octocat''), (''public_repos'', JInt 2)],
       repositories = octocat_repos,
       public_repos = JInt 2, followers = JInt 0, following = JInt 0,
       total_stars = 3, total_forks = 2, languages = [(JStr ''Python'', 1)],
       repos_with_readme = 1, repos_with_description = 1,
       top_repos = octocat_repos \<rparr>"

definition default_record :: "datetime Analysis" where
  "default_record =
     \<lparr> analysis_id = ''id-1'', username = ''octocat'', overall_score = 58,
       score_breakdown =
         \<lparr> documentation = 60, code_structure = 65, activity_consistency = 55,
           repository_organization = 60, project_impact = 50, technical_depth = 60 \<rparr>,
       strengths =
         [''Active GitHub presence'', ''Multiple programming languages'',
          ''Public repositories available''],
       weaknesses =
         [''Analysis incomplete - AI service temporarily unavailable'',
          ''Consider adding more detailed README files'',
          ''Enhance project descriptions''],
       recommendations =
         [''Add comprehensive README files to all repositories'',
          ''Include project setup instructions and usage examples'',
          ''Write detailed commit messages'',
          ''Contribute to open source projects'',
          ''Pin your best projects to your profile''],
       profile_info =
         \<lparr> pd_name = JStr ''octocat'', pd_bio = JStr [], pd_avatar_url = JStr [],
           pd_public_repos = JInt 2, pd_followers = JInt 0, pd_total_stars = 3,
           pd_languages = [(JStr ''Python'', 1)] \<rparr>,
       timestamp = sample_time \<rparr>"

text \<open>The document the service stores for \<open>default_record\<close>.\<close>

definition default_document :: "string Analysis" where
  "default_document =
     \<lparr> analysis_id = ''id-1'', username = ''octocat'', overall_score = 58,
       score_breakdown =
         \<lparr> documentation = 60, code_structure = 65, activity_consistency = 55,
           repository_organization = 60, project_impact = 50, technical_depth = 60 \<rparr>,
       strengths =
         [''Active GitHub presence'', ''Multiple programming languages'',
          ''Public repositories available''],
       weaknesses =
         [''Analysis incomplete - AI service temporarily unavailable'',
          ''Consider adding more detailed README files'',
          ''Enhance project descriptions''],
       recommendations =
         [''Add comprehensive README files to all repositories'',
          ''Include project setup instructions and usage examples'',
          ''Write detailed commit messages'',
          ''Contribute to open source projects'',
          ''Pin your best projects to your profile''],
       profile_info =
         \<lparr> pd_name = JStr ''octocat'', pd_bio = JStr [], pd_avatar_url = JStr [],
           pd_public_repos = JInt 2, pd_followers = JInt 0, pd_total_stars = 3,
           pd_languages = [(JStr ''Python'', 1)] \<rparr>,
       timestamp = ''2024-01-15T10:30:00.123456+00:00'' \<rparr>"

text \<open>A repository with \<open>2 ^ 63\<close> stars, one more than an 8-byte integer holds.\<close>

definition starry_repos :: json where
  "starry_repos = JList
     [JObj [(''name'', JStr ''hello''), (''stargazers_count'', JInt 9223372036854775808)]]"

definition starry_summary :: summary where
  "starry_summary =
     \<lparr> profile = JObj [(''login'', JStr ''octocat''), (''public_repos'', JInt 2)],
       repositories = starry_repos,
       public_repos = JInt 2, followers = JInt 0, following = JInt 0,
       total_stars = 9223372036854775808, total_forks = 0, languages = [],
       repos_with_readme = 1, repos_with_description = 0,
       top_repos = starry_repos \<rparr>"

text \<open>Two repositories with \<open>9 * 10 ^ 4299\<close> stars each, a number of 4300 digits; their
  total has 4301.\<close>

definition long_count :: int where
  "long_count = 9 * 10 ^ 4299"

definition long_repos :: json where
  "long_repos = JList
     [JObj [(''name'', JStr ''hello''), (''stargazers_count'', JInt long_count)],
      JObj [(''name'', JStr ''world''), (''stargazers_count'', JInt long_count)]]"

definition long_summary :: summary where
  "long_summary =
     \<lparr> profile = JObj [(''login'', JStr ''octocat''), (''public_repos'', JInt 2)],
       repositories = long_repos,
       public_repos = JInt 2, followers = JInt 0, following = JInt 0,
       total_stars = 2 * long_count, total_forks = 0, languages = [],
       repos_with_readme = 1, repos_with_description = 0,
       top_repos = long_repos \<rparr>"

text \<open>A repository whose \<^verbatim>\<open>language\<close> is a number, and a user without repositories.\<close>

definition numbered_repos :: json where
  "numbered_repos = JList [JObj [(''name'', JStr ''r''), (''language'', JInt 5)]]"

definition numbered_summary :: summary where
  "numbered_summary =
     \<lparr> profile = JObj [(''login'', JStr ''octocat''), (''public_repos'', JInt 2)],
       repositories = numbered_repos,
       public_repos = JInt 2, followers = JInt 0, following = JInt 0,
       total_stars = 0, total_forks = 0, languages = [(JInt 5, 1)],
       repos_with_readme = 0, repos_with_description = 0,
       top_repos = numbered_repos \<rparr>"

definition empty_summary :: summary where
  "empty_summary =
     \<lparr> profile = JObj [(''login'', JStr ''octocat''), (''public_repos'', JInt 2)],
       repositories = JList [],
       public_repos = JInt 2, followers = JInt 0, following = JInt 0,
       total_stars = 0, total_forks = 0, languages = [],
       repos_with_readme = 0, repos_with_description = 0,
       top_repos = JList [] \<rparr>"

text \<open>A second request, one second later.\<close>

definition later_time :: datetime where
  "later_time =
     \<lparr> year = 2024, month = 1, day = 15, hour = 10, minute = 30, second = 1,
       microsecond = 0 \<rparr>"

definition later_env :: env where
  "later_env = octocat_env\<lparr>clock := later_time\<rparr>"

definition later_record :: "datetime Analysis" where
  "later_record = default_record\<lparr>timestamp := later_time\<rparr>"

section \<open>Facts about the model\<close>

lemma and_then_Inl [simp]: "and_then (Inl e) f = Inl e"
  by (simp add: and_then_def)

lemma and_then_Inr [simp]: "and_then (Inr x) f = f x"
  by (simp add: and_then_def)

lemma and_then_eq_Inr:
  "and_then m f = Inr y \<longleftrightarrow> (\<exists>x. m = Inr x \<and> f x = Inr y)"
  by (cases m) simp_all

subsection \<open>Numbers as text and in the store\<close>

lemma int_printable_small: "\<bar>i\<bar> < 10 ^ 20 \<Longrightarrow> int_printable i"
proof -
  assume "\<bar>i\<bar> < 10 ^ 20"
  moreover have "(10::int) ^ 20 \<le> 10 ^ 4300"
    by (rule power_increasing) simp_all
  ultimately show ?thesis
    unfolding int_printable_def by (rule less_le_trans)
qed

lemma str_int_small [simp]: "\<bar>i\<bar> < 10 ^ 20 \<Longrightarrow> str_int i = Inr ()"
  by (simp add: str_int_def int_printable_small)

lemma py_str_JInt [simp]: "py_str (JInt i) = str_int i"
  by (simp add: py_str_def str_int_def)

lemma py_str_JStr [simp]: "py_str (JStr s) = Inr ()"
  by (simp add: py_str_def)

lemma py_str_JNull [simp]: "py_str JNull = Inr ()"
  by (simp add: py_str_def)

lemma py_str_JBool [simp]: "py_str (JBool b) = Inr ()"
  by (simp add: py_str_def)

lemma py_str_printable: "printable v \<Longrightarrow> py_str v = Inr ()"
  by (simp add: py_str_def)

lemma str_int_printable: "int_printable i \<Longrightarrow> str_int i = Inr ()"
  by (simp add: str_int_def)

lemma printable_entry:
  "printable (JObj kvs) \<Longrightarrow> printable d \<Longrightarrow>
     printable (case map_of kvs k of None \<Rightarrow> d | Some v \<Rightarrow> v)"
  by (auto split: option.splits dest!: map_of_SomeD)

lemma ten_power: "(10::int) ^ 4300 = 10 * 10 ^ 4299"
proof -
  have s: "(4300::nat) = Suc 4299" by simp
  show ?thesis unfolding s by (rule power_Suc)
qed

lemma ten_power_pos: "(0::int) < 10 ^ 4299"
  by (rule zero_less_power) simp

lemma nine_below: "0 < p \<Longrightarrow> \<bar>9 * p\<bar> < 10 * p" for p :: int
  by simp

lemma eighteen_above: "0 < p \<Longrightarrow> \<not> \<bar>2 * (9 * p)\<bar> < 10 * p" for p :: int
  by simp

lemma long_count_printable: "int_printable long_count"
  unfolding int_printable_def long_count_def ten_power
  by (rule nine_below[OF ten_power_pos])

lemma long_total: "\<not> int_printable (2 * long_count)"
  unfolding int_printable_def long_count_def ten_power
  by (rule eighteen_above[OF ten_power_pos])

lemma long_str_int: "str_int (2 * long_count) = Inl ValueError"
  by (simp only: str_int_def long_total if_False)

lemma insert_one_accepted:
  "encodable doc \<Longrightarrow> \<not> insert_refused e \<Longrightarrow> insert_one e store doc = Inr (store @ [doc])"
  by (simp add: insert_one_def)

lemma insert_one_Inr:
  "insert_one e store doc = Inr store' \<Longrightarrow> store' = store @ [doc] \<and> encodable doc"
  by (simp add: insert_one_def split: if_splits)

lemma insert_refused_world [simp]: "\<not> insert_refused (world repos reply)"
  by (simp add: world_def)

lemma derive_nobody: "derive_username ''nobody'' = ''nobody''"
  by (simp add: derive_username_def strip_def is_space_def contains_def)

subsection \<open>The six fields\<close>

lemma py_sum_ints:
  "list_all is_int vs \<Longrightarrow>
   py_sum acc vs = Inr (acc + sum_list (map (\<lambda>v. case as_int v of None \<Rightarrow> 0 | Some i \<Rightarrow> i) vs))"
proof (induction vs arbitrary: acc)
  case Nil
  then show ?case by simp
next
  case (Cons v vs)
  then obtain i where "v = JInt i" by (cases v) simp_all
  with Cons show ?case by simp
qed

lemma sum_list_distinct_keys:
  "distinct (map fst kvs) \<Longrightarrow>
   sum_list (map (\<lambda>kv. g (snd kv)) kvs) = (\<Sum>k\<in>set (map fst kvs). g (the (map_of kvs k)))"
proof (induction kvs)
  case Nil
  then show ?case by simp
next
  case (Cons kv kvs)
  obtain k v where kv: "kv = (k, v)" by (cases kv)
  from Cons.prems kv have notin: "k \<notin> fst ` set kvs" and d: "distinct (map fst kvs)"
    by auto
  have "(\<Sum>k'\<in>set (map fst kvs). g (the (map_of (kv # kvs) k'))) =
        (\<Sum>k'\<in>set (map fst kvs). g (the (map_of kvs k')))"
    using notin kv by (intro sum.cong) auto
  with Cons.IH[OF d] notin kv show ?case by simp
qed

lemma six_fields_sum:
  assumes "exactly_six_ints kvs"
  shows "py_sum 0 (map snd kvs) =
           Inr (field_value kvs ''documentation'' + field_value kvs ''code_structure'' +
                field_value kvs ''activity_consistency'' +
                field_value kvs ''repository_organization'' +
                field_value kvs ''project_impact'' + field_value kvs ''technical_depth'')"
proof -
  let ?g = "\<lambda>v. case as_int v of None \<Rightarrow> 0 | Some i \<Rightarrow> i"
  from assms have d: "distinct (map fst kvs)" and s: "set (map fst kvs) = set breakdown_fields"
    and i: "list_all is_int (map snd kvs)" by (simp_all add: exactly_six_ints_def)
  have dom: "\<And>k. k \<in> set breakdown_fields \<Longrightarrow> ?g (the (map_of kvs k)) = field_value kvs k"
  proof -
    fix k assume "k \<in> set breakdown_fields"
    with s have "k \<in> fst ` set kvs" by simp
    then obtain v where "map_of kvs k = Some v"
      by (metis domD dom_map_of_conv_image_fst)
    then show "?g (the (map_of kvs k)) = field_value kvs k" by (simp add: field_value_def)
  qed
  have "sum_list (map ?g (map snd kvs)) = sum_list (map (\<lambda>kv. ?g (snd kv)) kvs)"
    by (simp add: comp_def)
  also have "\<dots> = (\<Sum>k\<in>set (map fst kvs). ?g (the (map_of kvs k)))"
    by (rule sum_list_distinct_keys[OF d])
  also have "\<dots> = (\<Sum>k\<in>set breakdown_fields. field_value kvs k)"
    using s dom by (intro sum.cong) simp_all
  also have "\<dots> = field_value kvs ''documentation'' + field_value kvs ''code_structure'' +
                field_value kvs ''activity_consistency'' +
                field_value kvs ''repository_organization'' +
                field_value kvs ''project_impact'' + field_value kvs ''technical_depth''"
    by (simp add: breakdown_fields_def)
  finally show ?thesis using py_sum_ints[OF i, of 0] by simp
qed

lemma six_fields_length:
  assumes "exactly_six_ints kvs"
  shows "length kvs = 6"
proof -
  from assms have "length (map fst kvs) = card (set breakdown_fields)"
    by (metis distinct_card exactly_six_ints_def)
  also have "\<dots> = 6" by (simp add: breakdown_fields_def)
  finally show ?thesis by simp
qed

lemma six_fields_int_field:
  assumes "exactly_six_ints kvs" "k \<in> set breakdown_fields"
  shows "int_field kvs k = Inr (field_value kvs k)"
proof -
  from assms have "k \<in> fst ` set kvs" by (simp add: exactly_six_ints_def)
  then obtain v where v: "map_of kvs k = Some v"
    by (metis domD dom_map_of_conv_image_fst)
  then have "(k, v) \<in> set kvs" by (rule map_of_SomeD)
  with assms(1) have "is_int v"
    by (auto simp: exactly_six_ints_def list_all_iff)
  then obtain i where "v = JInt i" by (cases v) simp_all
  with v show ?thesis by (simp add: int_field_def field_value_def)
qed

lemma six_fields_validate:
  assumes "exactly_six_ints kvs"
  shows "validate_breakdown (JObj kvs) =
           Inr \<lparr> documentation = field_value kvs ''documentation'',
                 code_structure = field_value kvs ''code_structure'',
                 activity_consistency = field_value kvs ''activity_consistency'',
                 repository_organization = field_value kvs ''repository_organization'',
                 project_impact = field_value kvs ''project_impact'',
                 technical_depth = field_value kvs ''technical_depth'' \<rparr>"
  by (simp add: six_fields_int_field[OF assms] breakdown_fields_def)

subsection \<open>The handler in the sample world\<close>

lemma handler_Ok200D:
  assumes "analyze_github_profile loads e store url = (Ok200 a, store')"
  shows "run_analysis loads e url = Inr a" "store' = store @ [to_document a]"
  using assms
  by (auto simp: analyze_github_profile_def split: sum.splits exn.splits
      dest: insert_one_Inr)

lemma derive_octocat_url: "derive_username ''https://github.com/octocat'' = ''octocat''"
  by (simp add: derive_username_def strip_def is_space_def contains_def split_py.simps
      strip_chars_def)

lemma octocat_analyze_profile:
  "analyze_profile (world octocat_repos reply) ''octocat'' = Inr octocat_summary"
  by (simp add: analyze_profile_def get_user_profile_def get_repositories_def get_readme_def
      world_def octocat_repos_def is_success_def octocat_summary_def)

lemma octocat_render_prompt: "render_prompt octocat_summary = Inr ()"
  by (simp add: render_prompt_def octocat_summary_def octocat_repos_def)

lemma long_analyze_profile:
  "analyze_profile (world long_repos reply) ''octocat'' = Inr long_summary"
  by (simp add: analyze_profile_def get_user_profile_def get_repositories_def get_readme_def
      world_def long_repos_def is_success_def long_summary_def)

lemma long_render_prompt: "render_prompt long_summary = Inl ValueError"
  by (simp add: render_prompt_def long_summary_def long_str_int)

lemma long_repos_printable: "printable (repositories long_summary)"
  by (simp add: long_summary_def long_repos_def long_count_printable)

lemma llm_reply_world [simp]: "llm_reply (world repos reply) = reply"
  by (simp add: world_def)

lemma octocat_generate_down:
  "generate_analysis loads (Inl err) octocat_summary = Inr default_analysis"
  by (simp add: generate_analysis_def octocat_render_prompt parse_response_def)

lemma octocat_generate:
  "generate_analysis loads (llm_reply octocat_env) octocat_summary = Inr default_analysis"
  by (simp add: octocat_generate_down octocat_env_def)

lemma octocat_build:
  "build_analysis (world repos reply) ''octocat'' octocat_summary default_analysis =
     Inr default_record"
  by (simp add: build_analysis_def default_analysis_def int_field_def default_record_def
      octocat_summary_def world_def)

lemma default_record_encodable: "encodable (to_document default_record)"
  by (simp add: encodable_def to_document_def default_record_def int64_def)

lemma default_record_score: "str_int (overall_score default_record) = Inr ()"
  by (simp add: default_record_def)

lemma octocat_handler:
  "analyze_github_profile loads octocat_env store ''https://github.com/octocat'' =
     (Ok200 default_record, store @ [to_document default_record])"
proof -
  have "run_analysis loads octocat_env ''https://github.com/octocat'' = Inr default_record"
    unfolding run_analysis_def derive_octocat_url Let_def
    by (simp add: octocat_analyze_profile octocat_generate_down octocat_build octocat_env_def)
  moreover have "insert_one octocat_env store (to_document default_record) =
      Inr (store @ [to_document default_record])"
    by (rule insert_one_accepted) (simp_all add: default_record_encodable octocat_env_def)
  ultimately show ?thesis
    by (simp add: analyze_github_profile_def default_record_score)
qed

lemma default_breakdown_six:
  "exactly_six_ints
     [(''documentation'', JInt 60), (''code_structure'', JInt 65),
      (''activity_consistency'', JInt 55), (''repository_organization'', JInt 60),
      (''project_impact'', JInt 50), (''technical_depth'', JInt 60)]"
  by (auto simp: exactly_six_ints_def breakdown_fields_def)

subsection \<open>The scoring payload and the record\<close>

lemma and_then_eq_Inl:
  "and_then m f = Inl err \<longleftrightarrow> m = Inl err \<or> (\<exists>x. m = Inr x \<and> f x = Inl err)"
  by (cases m) simp_all

lemma analyze_profile_profile_dict:
  assumes "analyze_profile e u = Inr gd"
  shows "\<exists>kvs. profile gd = JObj kvs"
proof -
  from assms obtain prof v where p: "py_get prof ''public_repos'' (JInt 0) = Inr v"
    and "profile gd = prof"
    by (auto simp: analyze_profile_def and_then_eq_Inr)
  then show ?thesis by (cases prof) simp_all
qed

lemma fallback_build:
  assumes "profile gd = JObj kvs"
  shows "build_analysis e name gd default_analysis =
           Inr (fallback_record e name gd (clock e))"
  by (simp add: build_analysis_def default_analysis_def int_field_def assms
      fallback_record_def profile_entry_def)

lemma fallback_document:
  "to_document (fallback_record e name gd (clock e)) =
     fallback_record e name gd (isoformat (clock e))"
  by (simp add: to_document_def fallback_record_def)

lemma generate_analysis_fallback:
  assumes "render_prompt gd = Inr ()" "parse_response loads reply = Inl err"
  shows "generate_analysis loads reply gd = Inr default_analysis"
  using assms by (simp add: generate_analysis_def)

lemma generate_analysis_parsed:
  assumes "render_prompt gd = Inr ()" "parse_response loads reply = Inr v"
  shows "generate_analysis loads reply gd = Inr v"
  using assms by (simp add: generate_analysis_def)

lemma py_getitem_plain: "py_getitem v k = Inl err \<Longrightarrow> \<not> is_http_exception err"
  by (cases v) (auto split: option.splits)

lemma py_get_plain: "py_get v k d = Inl err \<Longrightarrow> \<not> is_http_exception err"
  by (cases v) auto

lemma py_sum_plain: "py_sum acc vs = Inl err \<Longrightarrow> \<not> is_http_exception err"
  by (induction vs arbitrary: acc) (auto split: option.splits)

lemma compute_overall_plain: "compute_overall v = Inl err \<Longrightarrow> \<not> is_http_exception err"
  by (cases v) (auto simp: and_then_eq_Inl split: if_splits dest: py_sum_plain)

lemma int_field_plain: "int_field kvs k = Inl err \<Longrightarrow> \<not> is_http_exception err"
  by (auto simp: int_field_def split: option.splits)

lemma validate_breakdown_plain:
  "validate_breakdown v = Inl err \<Longrightarrow> \<not> is_http_exception err"
  by (cases v) (auto simp: and_then_eq_Inl dest: int_field_plain)

lemma validate_str_list_plain:
  "validate_str_list v = Inl err \<Longrightarrow> \<not> is_http_exception err"
  by (cases v) (auto split: option.splits)

lemma build_analysis_plain:
  "build_analysis e name gd v = Inl err \<Longrightarrow> \<not> is_http_exception err"
  unfolding build_analysis_def and_then_eq_Inl
  by (elim disjE exE conjE)
     (auto dest: py_getitem_plain py_get_plain compute_overall_plain validate_breakdown_plain
        validate_str_list_plain)

lemma int_field_present: "int_field kvs k = Inr i \<Longrightarrow> map_of kvs k \<noteq> None"
  by (auto simp: int_field_def split: option.splits)

lemma validate_breakdown_present:
  assumes "validate_breakdown b = Inr sc"
  shows "\<exists>entries. b = JObj entries \<and>
           \<not> list_ex (\<lambda>k. map_of entries k = None) breakdown_fields"
proof (cases b)
  case (JObj entries)
  with assms show ?thesis
    by (auto simp: and_then_eq_Inr breakdown_fields_def dest!: int_field_present)
qed (use assms in simp_all)

lemma py_getitem_present:
  "py_getitem v k = Inr x \<Longrightarrow> \<exists>kvs. v = JObj kvs \<and> map_of kvs k = Some x"
  by (cases v) (auto split: option.splits)

lemma build_analysis_shape:
  assumes "build_analysis e name gd v = Inr a"
  shows "\<not> lacks_expected_shape v"
proof -
  from assms obtain b sc s w r where
    1: "py_getitem v ''score_breakdown'' = Inr b" and 2: "validate_breakdown b = Inr sc"
    and 3: "py_getitem v ''strengths'' = Inr s" and 4: "py_getitem v ''weaknesses'' = Inr w"
    and 5: "py_getitem v ''recommendations'' = Inr r"
    unfolding build_analysis_def and_then_eq_Inr by blast
  from py_getitem_present[OF 1] obtain kvs where v: "v = JObj kvs"
    and b: "map_of kvs ''score_breakdown'' = Some b" by blast
  from validate_breakdown_present[OF 2] obtain entries where e: "b = JObj entries"
    "\<not> list_ex (\<lambda>k. map_of entries k = None) breakdown_fields" by blast
  from 3 4 5 v have "map_of kvs ''strengths'' \<noteq> None" "map_of kvs ''weaknesses'' \<noteq> None"
    "map_of kvs ''recommendations'' \<noteq> None"
    by (auto split: option.splits)
  with v b e show ?thesis by simp
qed

lemma fenced_list: "fenced_text ''```json [1, 2] ```'' = Inr '' [1, 2] ''"
  by (simp add: fenced_text_def strip_def is_space_def contains_def split_py.simps
      py_index_def)

lemma fenced_braces: "fenced_text ''{}'' = Inr ''{}''"
  by (simp add: fenced_text_def strip_def is_space_def contains_def)

subsection \<open>The prompt\<close>

lemma scan_repos_named:
  "scan_repos e u rs st = Inr st' \<Longrightarrow> list_all named_dict rs"
proof (induction rs arbitrary: st)
  case Nil
  then show ?case by simp
next
  case (Cons r rs)
  obtain ls nr nd where st: "st = (ls, nr, nd)" by (cases st)
  from Cons.prems[unfolded st] obtain name st1 where
    n: "py_getitem r ''name'' = Inr name" and rest: "scan_repos e u rs st1 = Inr st'"
    by (auto simp: and_then_eq_Inr)
  from n have "named_dict r" by (cases r) (auto split: option.splits)
  with Cons.IH[OF rest] show ?case by simp
qed

lemma format_repos_named:
  "list_all named_dict rs \<Longrightarrow> list_all printable rs \<Longrightarrow> format_repos rs = Inr ()"
proof (induction rs)
  case Nil
  then show ?case by simp
next
  case (Cons r rs)
  then obtain kvs name where r: "r = JObj kvs" "map_of kvs ''name'' = Some name"
    by (cases r) auto
  from Cons.prems(2) r(1) have p: "printable (JObj kvs)" by simp
  from printable_entry[OF p, of JNull "''name''"] r(2) have "py_str name = Inr ()"
    by (simp add: py_str_def)
  moreover have "py_str (case map_of kvs ''description'' of
      None \<Rightarrow> JStr ''No description'' | Some v \<Rightarrow> v) = Inr ()"
    by (rule py_str_printable, rule printable_entry[OF p]) simp
  moreover have "py_str (case map_of kvs ''stargazers_count'' of
      None \<Rightarrow> JInt 0 | Some v \<Rightarrow> v) = Inr ()"
    by (rule py_str_printable, rule printable_entry[OF p]) (simp add: int_printable_small)
  moreover have "py_str (case map_of kvs ''language'' of
      None \<Rightarrow> JStr ''N/A'' | Some v \<Rightarrow> v) = Inr ()"
    by (rule py_str_printable, rule printable_entry[OF p]) simp
  moreover from Cons have "format_repos rs = Inr ()" by simp
  ultimately show ?case using r by simp
qed

lemma scan_repos_counts:
  "scan_repos e u rs (ls, nr, nd) = Inr (ls', nr', nd') \<Longrightarrow>
     nr \<le> nr' \<and> nr' \<le> nr + int (length rs) \<and> nd \<le> nd' \<and> nd' \<le> nd + int (length rs)"
proof (induction rs arbitrary: ls nr nd)
  case Nil
  then show ?case by simp
next
  case (Cons r rs)
  from Cons.prems obtain ls1 nr1 nd1 where
    rest: "scan_repos e u rs (ls1, nr1, nd1) = Inr (ls', nr', nd')"
    and "nr \<le> nr1" "nr1 \<le> nr + 1" "nd \<le> nd1" "nd1 \<le> nd + 1"
    by (auto simp: and_then_eq_Inr split: option.splits if_splits)
  with Cons.IH[OF rest] show ?case by simp
qed

lemma slice_length:
  assumes "py_slice 10 repos = Inr top10" "py_iter top10 = Inr top_list"
  shows "length top_list \<le> 10"
  using assms by (cases repos) auto

lemma slice_printable:
  assumes "printable repos" "py_slice 10 repos = Inr top10" "py_iter top10 = Inr top_list"
  shows "list_all printable top_list"
  using assms by (cases repos) (auto simp: list_all_iff dest!: in_set_takeD)

lemma slice_of_slice:
  assumes "py_slice 10 repos = Inr top10" "py_iter top10 = Inr top_list"
  shows "\<exists>top5 l5. py_slice 5 top10 = Inr top5 \<and> py_iter top5 = Inr l5 \<and>
           set l5 \<subseteq> set top_list"
proof (cases repos)
  case (JList rs)
  with assms have "py_slice 5 top10 = Inr (JList (take 5 (take 10 rs)))"
    "py_iter (JList (take 5 (take 10 rs))) = Inr (take 5 (take 10 rs))"
    "top_list = take 10 rs"
    by auto
  moreover have "set (take 5 (take 10 rs)) \<subseteq> set (take 10 rs)"
    by (rule set_take_subset)
  ultimately show ?thesis by blast
next
  case (JStr s)
  with assms have "py_slice 5 top10 = Inr (JStr (take 5 (take 10 s)))"
    "py_iter (JStr (take 5 (take 10 s))) = Inr (map (\<lambda>c. JStr [c]) (take 5 (take 10 s)))"
    "top_list = map (\<lambda>c. JStr [c]) (take 10 s)"
    by auto
  moreover have "set (map (\<lambda>c. JStr [c]) (take 5 (take 10 s))) \<subseteq>
      set (map (\<lambda>c. JStr [c]) (take 10 s))"
    using set_take_subset[of 5 "take 10 s"] by (auto simp del: take_take)
  ultimately show ?thesis by blast
qed (use assms in simp_all)

lemma analyze_profile_prompt:
  assumes "analyze_profile e u = Inr gd"
    and "list_all is_str (map fst (languages gd))"
    and "printable (profile gd)" and "printable (repositories gd)"
    and "int_printable (total_stars gd)" and "int_printable (total_forks gd)"
  shows "render_prompt gd = Inr ()"
proof -
  from analyze_profile_profile_dict[OF assms(1)] obtain kvs where p: "profile gd = JObj kvs"
    by blast
  from assms(1) obtain repos top10 top_list ls where
    sl: "py_slice 10 repos = Inr top10" and it: "py_iter top10 = Inr top_list"
    and sc: "scan_repos e u top_list ([], 0, 0) =
          Inr (ls, repos_with_readme gd, repos_with_description gd)"
    and tr: "py_slice 10 repos = Inr (top_repos gd)"
    and rp: "repositories gd = repos"
    and pr: "py_get (profile gd) ''public_repos'' (JInt 0) = Inr (public_repos gd)"
    and fo: "py_get (profile gd) ''followers'' (JInt 0) = Inr (followers gd)"
    by (auto simp: analyze_profile_def and_then_eq_Inr split: prod.splits)
  from sl tr have top: "top_repos gd = top10" by simp
  from slice_of_slice[OF sl it] obtain top5 l5 where
    5: "py_slice 5 top10 = Inr top5" "py_iter top5 = Inr l5" "set l5 \<subseteq> set top_list"
    by blast
  from scan_repos_named[OF sc] 5(3) have "list_all named_dict l5"
    by (auto simp: list_all_iff)
  moreover from slice_printable[OF _ sl it] assms(4) rp 5(3) have "list_all printable l5"
    by (auto simp: list_all_iff)
  ultimately have fr: "format_repos l5 = Inr ()" by (rule format_repos_named)
  from scan_repos_counts[OF sc] slice_length[OF sl it]
  have "\<bar>repos_with_readme gd\<bar> < 10 ^ 20" "\<bar>repos_with_description gd\<bar> < 10 ^ 20"
    by simp_all
  then have counts: "str_int (repos_with_readme gd) = Inr ()"
    "str_int (repos_with_description gd) = Inr ()"
    by simp_all
  have pk: "printable (JObj kvs)" using assms(3) p by simp
  have name: "py_str (case map_of kvs ''name'' of
        None \<Rightarrow> (case map_of kvs ''login'' of None \<Rightarrow> JNull | Some v \<Rightarrow> v)
      | Some v \<Rightarrow> v) = Inr ()"
    by (rule py_str_printable, rule printable_entry[OF pk], rule printable_entry[OF pk]) simp
  have bio: "py_str (case map_of kvs ''bio'' of
      None \<Rightarrow> JStr ''Not provided'' | Some v \<Rightarrow> v) = Inr ()"
    by (rule py_str_printable, rule printable_entry[OF pk]) simp
  have loc: "py_str (case map_of kvs ''location'' of
      None \<Rightarrow> JStr ''Not provided'' | Some v \<Rightarrow> v) = Inr ()"
    by (rule py_str_printable, rule printable_entry[OF pk]) simp
  from pr p have "public_repos gd = (case map_of kvs ''public_repos'' of
      None \<Rightarrow> JInt 0 | Some v \<Rightarrow> v)" by simp
  then have pub: "py_str (public_repos gd) = Inr ()"
    using printable_entry[OF pk, of "JInt 0" "''public_repos''"]
    by (simp add: py_str_def int_printable_small)
  from fo p have "followers gd = (case map_of kvs ''followers'' of
      None \<Rightarrow> JInt 0 | Some v \<Rightarrow> v)" by simp
  then have fol: "py_str (followers gd) = Inr ()"
    using printable_entry[OF pk, of "JInt 0" "''followers''"]
    by (simp add: py_str_def int_printable_small)
  from p assms(2) top 5 fr counts name bio loc pub fol
    str_int_printable[OF assms(5)] str_int_printable[OF assms(6)]
  show ?thesis by (simp add: render_prompt_def)
qed

subsection \<open>The aggregate\<close>

lemma sum_field_closed:
  "sum_field k acc rs = Inr t \<Longrightarrow> t = acc + (\<Sum>r\<leftarrow>rs. count_of k r)"
proof (induction rs arbitrary: acc)
  case Nil
  then show ?case by simp
next
  case (Cons r rs)
  from Cons.prems obtain v i where v: "py_get r k (JInt 0) = Inr v" "as_int v = Some i"
    and rest: "sum_field k (acc + i) rs = Inr t"
    by (auto simp: and_then_eq_Inr split: option.splits)
  from v have "count_of k r = i" by (simp add: count_of_def)
  with Cons.IH[OF rest] show ?case by simp
qed

lemma key_eq_trans: "key_eq a b \<Longrightarrow> key_eq a c = key_eq b c"
  by (simp add: key_eq_def)

lemma tally_get_bump:
  "tally_get (bump ls k) l = tally_get ls l + (if key_eq k l then 1 else 0)"
proof (induction ls)
  case Nil
  then show ?case by simp
next
  case (Cons kn ls)
  obtain k' n where kn: "kn = (k', n)" by (cases kn)
  show ?case
  proof (cases "key_eq k' k")
    case True
    with kn show ?thesis by (simp add: key_eq_trans[OF True])
  next
    case False
    then have "key_eq k' l \<Longrightarrow> \<not> key_eq k l" by (auto simp: key_eq_def)
    with False kn Cons.IH show ?thesis by auto
  qed
qed

lemma scan_repos_closed:
  "scan_repos e u rs (ls, nr, nd) = Inr (ls', nr', nd') \<Longrightarrow>
     nr' = nr + int (length (filter (has_readme e u) rs)) \<and>
     nd' = nd + int (length (filter has_description rs)) \<and>
     (\<forall>l. tally_get ls' l = tally_get ls l + int (length (filter (has_language l) rs)))"
proof (induction rs arbitrary: ls nr nd)
  case Nil
  then show ?case by simp
next
  case (Cons r rs)
  from Cons.prems obtain lang ls1 descr name where
    lang: "py_get r ''language'' JNull = Inr lang"
    and ls1: "(if truthy lang then (if hashable lang then Inr (bump ls lang) else Inl TypeError)
               else Inr ls) = Inr ls1"
    and descr: "py_get r ''description'' JNull = Inr descr"
    and name: "py_getitem r ''name'' = Inr name"
    and rest: "scan_repos e u rs
         (ls1,
          (case get_readme e u name of
             None \<Rightarrow> nr
           | Some text \<Rightarrow> if text \<noteq> [] then nr + 1 else nr),
          (if truthy descr then nd + 1 else nd)) = Inr (ls', nr', nd')"
    by (auto simp: and_then_eq_Inr)
  note ih = Cons.IH[OF rest]
  have r1: "(case get_readme e u name of
             None \<Rightarrow> nr
           | Some text \<Rightarrow> if text \<noteq> [] then nr + 1 else nr) =
        nr + (if has_readme e u r then 1 else 0)"
    using name by (simp add: has_readme_def split: option.splits)
  have d1: "(if truthy descr then nd + 1 else nd) = nd + (if has_description r then 1 else 0)"
    using descr by (simp add: has_description_def)
  have l1: "\<And>l. tally_get ls1 l = tally_get ls l + (if has_language l r then 1 else 0)"
    using ls1 lang by (auto simp: has_language_def tally_get_bump split: if_splits)
  from ih show ?case by (simp add: r1 d1 l1)
qed

lemma analyze_profile_parts:
  assumes "analyze_profile e u = Inr gd"
  shows "\<exists>all_repos top_list.
           py_iter (repositories gd) = Inr all_repos \<and>
           sum_field ''stargazers_count'' 0 all_repos = Inr (total_stars gd) \<and>
           sum_field ''forks_count'' 0 all_repos = Inr (total_forks gd) \<and>
           py_slice 10 (repositories gd) = Inr (top_repos gd) \<and>
           py_iter (top_repos gd) = Inr top_list \<and>
           scan_repos e u top_list ([], 0, 0) =
             Inr (languages gd, repos_with_readme gd, repos_with_description gd)"
  using assms
  by (auto simp: analyze_profile_def and_then_eq_Inr split: prod.splits)

lemma empty_analyze_profile:
  "analyze_profile (world (JList []) reply) ''octocat'' = Inr empty_summary"
  by (simp add: analyze_profile_def get_user_profile_def get_repositories_def
      world_def is_success_def empty_summary_def)

subsection \<open>Trimming both ends\<close>

lemma trim_both:
  fixes P :: "'a \<Rightarrow> bool"
  defines "trim \<equiv> \<lambda>s. rev (dropWhile P (rev (dropWhile P s)))"
  shows "\<exists>l r. s = l @ trim s @ r \<and> list_all P l \<and> list_all P r"
    and "trim s \<noteq> [] \<Longrightarrow> \<not> P (hd (trim s)) \<and> \<not> P (last (trim s))"
proof -
  let ?m = "dropWhile P s"
  have m: "?m = trim s @ rev (takeWhile P (rev ?m))"
  proof -
    have "rev (takeWhile P (rev ?m) @ dropWhile P (rev ?m)) = rev (rev ?m)"
      by (simp only: takeWhile_dropWhile_id)
    then show ?thesis by (simp only: rev_append rev_rev_ident trim_def)
  qed
  have "s = takeWhile P s @ ?m" by simp
  with m have "s = takeWhile P s @ trim s @ rev (takeWhile P (rev ?m))" by simp
  moreover have "list_all P (takeWhile P s)"
    by (auto simp: list_all_iff dest: set_takeWhileD)
  moreover have "list_all P (rev (takeWhile P (rev ?m)))"
    by (auto simp: list_all_iff dest: set_takeWhileD)
  ultimately show "\<exists>l r. s = l @ trim s @ r \<and> list_all P l \<and> list_all P r" by blast
  assume ne: "trim s \<noteq> []"
  then have d: "dropWhile P (rev ?m) \<noteq> []" by (simp add: trim_def)
  then have "\<not> P (hd (dropWhile P (rev ?m)))" by (rule hd_dropWhile)
  with d have l: "\<not> P (last (trim s))" by (simp add: trim_def last_rev)
  from ne m have "?m \<noteq> []" by (metis append_is_Nil_conv)
  then have "\<not> P (hd ?m)" by (rule hd_dropWhile)
  moreover from m ne have "hd ?m = hd (trim s)" by (metis hd_append2)
  ultimately show "\<not> P (hd (trim s)) \<and> \<not> P (last (trim s))" using l by simp
qed

lemma strip_trims:
  "\<exists>l r. s = l @ strip s @ r \<and> list_all is_space l \<and> list_all is_space r"
  "strip s \<noteq> [] \<Longrightarrow> \<not> is_space (hd (strip s)) \<and> \<not> is_space (last (strip s))"
  unfolding strip_def by (rule trim_both)+

lemma strip_chars_trims:
  "\<exists>l r. s = l @ strip_chars cs s @ r \<and> set l \<subseteq> set cs \<and> set r \<subseteq> set cs"
  "strip_chars cs s \<noteq> [] \<Longrightarrow>
     hd (strip_chars cs s) \<notin> set cs \<and> last (strip_chars cs s) \<notin> set cs"
proof -
  from trim_both(1)[of s "\<lambda>c. c \<in> set cs"]
  show "\<exists>l r. s = l @ strip_chars cs s @ r \<and> set l \<subseteq> set cs \<and> set r \<subseteq> set cs"
    unfolding strip_chars_def by (auto simp: list_all_iff)
  assume "strip_chars cs s \<noteq> []"
  with trim_both(2)[of "\<lambda>c. c \<in> set cs" s]
  show "hd (strip_chars cs s) \<notin> set cs \<and> last (strip_chars cs s) \<notin> set cs"
    unfolding strip_chars_def by simp
qed

subsection \<open>Occurrences of a separator\<close>

lemma partition_first_earliest:
  "partition_first sep s = Some (a, b) \<Longrightarrow> s = a' @ sep @ b' \<Longrightarrow> length a \<le> length a'"
proof (induction s arbitrary: a b a')
  case Nil
  then show ?case by (simp split: if_splits)
next
  case (Cons c cs)
  show ?case
  proof (cases "take (length sep) (c # cs) = sep")
    case True
    with Cons.prems(1) show ?thesis by simp
  next
    case False
    with Cons.prems(1) obtain a0 where a0: "partition_first sep cs = Some (a0, b)" "a = c # a0"
      by (auto split: option.splits)
    from False Cons.prems(2) have "a' \<noteq> []" by auto
    then obtain a1 where a1: "a' = c # a1" using Cons.prems(2) by (cases a') auto
    with Cons.prems(2) have "cs = a1 @ sep @ b'" by simp
    from Cons.IH[OF a0(1) this] a0(2) a1 show ?thesis by simp
  qed
qed

lemma partition_first_None:
  "partition_first sep s = None \<Longrightarrow> s \<noteq> a @ sep @ b"
proof (induction s arbitrary: a)
  case Nil
  then show ?case by (simp split: if_splits)
next
  case (Cons c cs)
  show ?case
  proof (cases "take (length sep) (c # cs) = sep")
    case True
    with Cons.prems show ?thesis by simp
  next
    case False
    with Cons.prems have n: "partition_first sep cs = None" by (auto split: option.splits)
    show ?thesis
    proof
      assume eq: "c # cs = a @ sep @ b"
      with False have "a \<noteq> []" by auto
      then obtain a1 where "a = c # a1" using eq by (cases a) auto
      with eq have "cs = a1 @ sep @ b" by simp
      with Cons.IH[OF n] show False by blast
    qed
  qed
qed

lemma contains_iff: "contains sep s \<longleftrightarrow> (\<exists>a b. s = a @ sep @ b)"
proof
  assume "contains sep s"
  then obtain a b where "partition_first sep s = Some (a, b)"
    by (auto simp: contains_def)
  then show "\<exists>a b. s = a @ sep @ b" using partition_first_decomp by blast
next
  assume "\<exists>a b. s = a @ sep @ b"
  then show "contains sep s"
    unfolding contains_def using partition_first_None by blast
qed

lemma split_py_nonempty: "split_py sep s \<noteq> []"
  by (subst split_py.simps) (simp split: option.splits)

lemma split_py_absent: "\<not> contains sep s \<Longrightarrow> split_py sep s = [s]"
  by (subst split_py.simps) (auto simp: contains_def split: option.splits)

lemma split_py_present:
  "sep \<noteq> [] \<Longrightarrow> partition_first sep s = Some (a, b) \<Longrightarrow>
     split_py sep s = a # split_py sep b"
  by (subst split_py.simps) simp

lemma last_split_py:
  "sep \<noteq> [] \<Longrightarrow> contains sep s \<Longrightarrow>
     \<exists>pre. s = pre @ sep @ last (split_py sep s) \<and> \<not> contains sep (last (split_py sep s))"
proof (induction sep s rule: split_py.induct)
  case (1 sep s)
  from "1.prems" obtain a b where ab: "partition_first sep s = Some (a, b)"
    by (auto simp: contains_def)
  then have s: "s = a @ sep @ b" by (rule partition_first_decomp)
  have sp: "split_py sep s = a # split_py sep b"
    using ab "1.prems"(1) by (simp add: split_py_present)
  then have l: "last (split_py sep s) = last (split_py sep b)"
    by (simp add: split_py_nonempty)
  show ?case
  proof (cases "contains sep b")
    case True
    from "1.IH"[OF "1.prems"(1) ab refl "1.prems"(1) True]
    obtain pre where "b = pre @ sep @ last (split_py sep b)"
      "\<not> contains sep (last (split_py sep b))" by blast
    with s l show ?thesis by (metis append.assoc)
  next
    case False
    then have "split_py sep b = [b]" by (rule split_py_absent)
    with s l False show ?thesis by auto
  qed
qed

lemma final_occurrence:
  assumes s1: "s = pre @ sep @ suf" and nc: "\<not> contains sep suf"
    and s2: "s = pre' @ sep @ suf'"
    and border_free: "\<And>d. 0 < d \<Longrightarrow> d < length sep \<Longrightarrow> drop d sep \<noteq> take (length sep - d) sep"
  shows "length pre' \<le> length pre"
proof (rule ccontr)
  assume "\<not> length pre' \<le> length pre"
  then have gt: "length pre < length pre'" by simp
  define d where "d = length pre' - length pre"
  with gt have d: "0 < d" by simp
  from s1 s2 have eq: "pre @ sep @ suf = pre' @ sep @ suf'" by simp
  then have "take (length pre) (pre @ sep @ suf) = take (length pre) (pre' @ sep @ suf')"
    by simp
  with gt have p: "pre = take (length pre) pre'" by simp
  define x where "x = drop (length pre) pre'"
  have pre': "pre' = pre @ x"
    using p x_def by (metis append_take_drop_id)
  have lx: "length x = d" by (simp add: x_def d_def)
  from eq pre' have tail: "sep @ suf = x @ sep @ suf'" by simp
  show False
  proof (cases "d < length sep")
    case True
    from tail have "take (length sep) (sep @ suf) = take (length sep) (x @ sep @ suf')"
      by simp
    with True lx have "sep = x @ take (length sep - d) sep" by simp
    then have "drop d sep = drop d (x @ take (length sep - d) sep)" by simp
    with lx have "drop d sep = take (length sep - d) sep" by simp
    with border_free[OF d True] show False by simp
  next
    case False
    from tail have "drop (length sep) (sep @ suf) = drop (length sep) (x @ sep @ suf')"
      by simp
    with False lx have "suf = drop (length sep) x @ sep @ suf'" by simp
    with nc show False by (auto simp: contains_iff)
  qed
qed

lemma host_border_free:
  assumes "0 < d" "d < length ''github.com/''"
  shows "drop d ''github.com/'' \<noteq> take (length ''github.com/'' - d) ''github.com/''"
proof -
  from assms have "d < 11" by simp
  with assms(1) have "d = 1 \<or> d = 2 \<or> d = 3 \<or> d = 4 \<or> d = 5 \<or> d = 6 \<or> d = 7 \<or>
      d = 8 \<or> d = 9 \<or> d = 10"
    by arith
  then show ?thesis by (elim disjE) simp_all
qed

lemma derive_repository_url:
  "derive_username ''https://github.com/octocat/Hello-World'' = ''octocat/Hello-World''"
  by (simp add: derive_username_def strip_def is_space_def contains_def split_py.simps
      strip_chars_def)

lemma derive_plain_octocat: "derive_username ''octocat'' = ''octocat''"
  by (simp add: derive_username_def strip_def is_space_def contains_def)

lemma before_first_free:
  assumes "sep \<noteq> []"
  shows "\<not> contains sep (before_first sep s)"
proof (cases "partition_first sep s")
  case None
  then show ?thesis by (simp add: before_first_def contains_def)
next
  case (Some ab)
  obtain a b where ab: "ab = (a, b)" by (cases ab)
  with Some have p: "partition_first sep s = Some (a, b)" by simp
  show ?thesis
  proof
    assume "contains sep (before_first sep s)"
    with p obtain a' b' where "a = a' @ sep @ b'"
      by (auto simp: before_first_def contains_iff)
    with partition_first_decomp[OF p] have "s = a' @ sep @ (b' @ sep @ b)" by simp
    from partition_first_earliest[OF p this] \<open>a = a' @ sep @ b'\<close> assms
    show False by simp
  qed
qed

lemma before_first_absent: "\<not> contains sep s \<Longrightarrow> before_first sep s = s"
  by (auto simp: before_first_def contains_def split: option.splits)

lemma split_py_0: "py_index (split_py sep s) 0 = Inr (if sep = [] then s else before_first sep s)"
  by (subst split_py.simps) (simp add: py_index_def before_first_def split: option.splits)

lemma split_py_1:
  assumes "sep \<noteq> []" "contains sep s"
  shows "py_index (split_py sep s) 1 = Inr (before_first sep (after_first sep s))"
proof -
  from assms(2) obtain a b where p: "partition_first sep s = Some (a, b)"
    by (auto simp: contains_def)
  then have "split_py sep s = a # split_py sep b"
    using assms(1) by (simp add: split_py_present)
  moreover have "py_index (split_py sep b) 0 = Inr (before_first sep b)"
    using assms(1) by (simp add: split_py_0)
  ultimately show ?thesis
    using p by (simp add: py_index_def after_first_def split_py_nonempty split: if_splits)
qed

lemma contains_json_fence: "contains ''```json'' s \<Longrightarrow> contains ''```'' s"
proof -
  assume "contains ''```json'' s"
  then obtain a b where "s = a @ ''```json'' @ b" by (auto simp: contains_iff)
  then have "s = a @ ''```'' @ (''json'' @ b)" by simp
  then show ?thesis unfolding contains_iff by blast
qed

lemma fenced_doubled: "fenced_text ''```json{}````json'' = Inr ''{}`''"
  by (simp add: fenced_text_def strip_def is_space_def contains_def split_py.simps
      py_index_def)

subsection \<open>Digits and ISO-8601 text\<close>

lemma length_zfill [simp]: "length (zfill k n) = k"
  by (induction k arbitrary: n) simp_all

lemma of_char_digit: "(of_char (digit n) :: nat) = 48 + n mod 10"
proof -
  have "48 + n mod 10 < 256" by (rule less_trans[of _ 58]) simp_all
  then show ?thesis by (simp add: digit_def)
qed

lemma digit_value_digit [simp]: "digit_value (digit n) = Some (n mod 10)"
  by (simp add: digit_value_def of_char_digit Let_def)

lemma parse_digits_append:
  "parse_digits acc (xs @ ys) =
     (case parse_digits acc xs of None \<Rightarrow> None | Some a \<Rightarrow> parse_digits a ys)"
  by (induction xs arbitrary: acc) (simp_all split: option.splits)

lemma parse_digits_zfill:
  "parse_digits acc (zfill k n) = Some (acc * 10 ^ k + n mod 10 ^ k)"
proof (induction k arbitrary: n)
  case 0
  then show ?case by simp
next
  case (Suc k)
  have "n mod (10 * 10 ^ k) = 10 * (n div 10 mod 10 ^ k) + n mod 10"
    by (rule mod_mult2_eq)
  then show ?case
    by (simp add: parse_digits_append Suc.IH algebra_simps)
qed

lemma parse_zfill:
  "n < 10 ^ k \<Longrightarrow> parse_digits 0 (zfill k n) = Some n"
  by (simp add: parse_digits_zfill)

lemma zfill_inj:
  assumes "a < 10 ^ k" "b < 10 ^ k" "zfill k a = zfill k b"
  shows "a = b"
proof -
  from assms(3) have "parse_digits 0 (zfill k a) = parse_digits 0 (zfill k b)" by simp
  with assms(1,2) show ?thesis by (simp add: parse_zfill)
qed

lemma digit_less: "digit a < digit b \<longleftrightarrow> a mod 10 < b mod 10"
  by (simp add: less_char_def of_char_digit)

lemma append_less_same_length:
  "length xs = length ys \<Longrightarrow>
     (xs @ u < ys @ v \<longleftrightarrow> xs < ys \<or> xs = ys \<and> u < v)"
  for xs ys :: "('a :: linorder) list"
  by (induction xs ys rule: list_induct2) auto

lemma zfill_less:
  "a < 10 ^ k \<Longrightarrow> b < 10 ^ k \<Longrightarrow> (zfill k a < zfill k b \<longleftrightarrow> a < b)"
proof (induction k arbitrary: a b)
  case 0
  then show ?case by simp
next
  case (Suc k)
  from Suc.prems have q: "a div 10 < 10 ^ k" "b div 10 < 10 ^ k"
    by (simp_all add: less_mult_imp_div_less mult.commute)
  have eq: "zfill k (a div 10) = zfill k (b div 10) \<longleftrightarrow> a div 10 = b div 10"
    using zfill_inj[OF q] by auto
  have "zfill (Suc k) a < zfill (Suc k) b \<longleftrightarrow>
      a div 10 < b div 10 \<or> a div 10 = b div 10 \<and> a mod 10 < b mod 10"
    by (simp add: append_less_same_length Suc.IH[OF q] eq digit_less)
  also have "\<dots> \<longleftrightarrow> a < b"
  proof -
    have "a = 10 * (a div 10) + a mod 10" "b = 10 * (b div 10) + b mod 10" by simp_all
    moreover have "a mod 10 < 10" "b mod 10 < 10" by simp_all
    ultimately show ?thesis by arith
  qed
  finally show ?case .
qed

lemma fromisoformat_isoformat:
  assumes "valid_datetime d"
  shows "fromisoformat (isoformat d) = Some d"
proof -
  from assms have b: "year d < 10 ^ 4" "month d < 10 ^ 2" "day d < 10 ^ 2" "hour d < 10 ^ 2"
    "minute d < 10 ^ 2" "second d < 10 ^ 2" "microsecond d < 10 ^ 6"
    by (auto simp: valid_datetime_def days_in_month_def split: if_splits)
  note p = b[THEN parse_zfill]
  let ?d = "\<lparr> year = year d, month = month d, day = day d, hour = hour d,
      minute = minute d, second = second d, microsecond = microsecond d \<rparr>"
  have whole: "?d = d" by simp
  have "fromisoformat (isoformat d) = (if valid_datetime ?d then Some ?d else None)"
  proof (cases "microsecond d = 0")
    case True
    then have "isoformat d =
        zfill 4 (year d) @ ''-'' @ zfill 2 (month d) @ ''-'' @ zfill 2 (day d) @ ''T'' @
        zfill 2 (hour d) @ '':'' @ zfill 2 (minute d) @ '':'' @ zfill 2 (second d) @ ''+00:00''"
      by (simp add: isoformat_def)
    with True show ?thesis
      by (simp add: fromisoformat_def substr_def p Let_def)
  next
    case False
    then have "isoformat d =
        zfill 4 (year d) @ ''-'' @ zfill 2 (month d) @ ''-'' @ zfill 2 (day d) @ ''T'' @
        zfill 2 (hour d) @ '':'' @ zfill 2 (minute d) @ '':'' @ zfill 2 (second d) @
        ''.'' @ zfill 6 (microsecond d) @ ''+00:00''"
      by (simp add: isoformat_def)
    then show ?thesis
      by (simp add: fromisoformat_def substr_def p Let_def)
  qed
  also have "\<dots> = Some d"
    unfolding whole using assms by simp
  finally show ?thesis .
qed

lemma isoformat_inj:
  "valid_datetime a \<Longrightarrow> valid_datetime b \<Longrightarrow> isoformat a = isoformat b \<Longrightarrow> a = b"
  by (metis fromisoformat_isoformat option.inject)

lemma fraction_less:
  assumes "a < 10 ^ 6" "b < 10 ^ 6"
  shows "(if a \<noteq> 0 then ''.'' @ zfill 6 a else []) @ ''+00:00'' <
         (if b \<noteq> 0 then ''.'' @ zfill 6 b else []) @ ''+00:00'' \<longleftrightarrow> a < (b :: nat)"
proof -
  have "zfill 6 a @ ''+00:00'' < zfill 6 b @ ''+00:00'' \<longleftrightarrow> a < b"
    using zfill_less[OF assms] by (simp add: append_less_same_length)
  then show ?thesis by (auto simp: less_char_def)
qed

lemma isoformat_less:
  assumes "valid_datetime a" "valid_datetime b"
  shows "isoformat a < isoformat b \<longleftrightarrow> chrono a < chrono b"
proof -
  have bounds: "\<And>d. valid_datetime d \<Longrightarrow>
      year d < 10 ^ 4 \<and> month d < 10 ^ 2 \<and> day d < 10 ^ 2 \<and> hour d < 10 ^ 2 \<and>
      minute d < 10 ^ 2 \<and> second d < 10 ^ 2 \<and> microsecond d < 10 ^ 6"
    by (auto simp: valid_datetime_def days_in_month_def split: if_splits)
  note ba = bounds[OF assms(1)] and bb = bounds[OF assms(2)]
  have y: "zfill 4 (year a) < zfill 4 (year b) \<longleftrightarrow> year a < year b"
    "zfill 4 (year a) = zfill 4 (year b) \<longleftrightarrow> year a = year b"
    using ba bb zfill_less[of "year a" 4 "year b"] zfill_inj[of "year a" 4 "year b"] by auto
  have mo: "zfill 2 (month a) < zfill 2 (month b) \<longleftrightarrow> month a < month b"
    "zfill 2 (month a) = zfill 2 (month b) \<longleftrightarrow> month a = month b"
    using ba bb zfill_less[of "month a" 2 "month b"] zfill_inj[of "month a" 2 "month b"]
    by auto
  have dd: "zfill 2 (day a) < zfill 2 (day b) \<longleftrightarrow> day a < day b"
    "zfill 2 (day a) = zfill 2 (day b) \<longleftrightarrow> day a = day b"
    using ba bb zfill_less[of "day a" 2 "day b"] zfill_inj[of "day a" 2 "day b"] by auto
  have h: "zfill 2 (hour a) < zfill 2 (hour b) \<longleftrightarrow> hour a < hour b"
    "zfill 2 (hour a) = zfill 2 (hour b) \<longleftrightarrow> hour a = hour b"
    using ba bb zfill_less[of "hour a" 2 "hour b"] zfill_inj[of "hour a" 2 "hour b"] by auto
  have mi: "zfill 2 (minute a) < zfill 2 (minute b) \<longleftrightarrow> minute a < minute b"
    "zfill 2 (minute a) = zfill 2 (minute b) \<longleftrightarrow> minute a = minute b"
    using ba bb zfill_less[of "minute a" 2 "minute b"] zfill_inj[of "minute a" 2 "minute b"]
    by auto
  have se: "zfill 2 (second a) < zfill 2 (second b) \<longleftrightarrow> second a < second b"
    "zfill 2 (second a) = zfill 2 (second b) \<longleftrightarrow> second a = second b"
    using ba bb zfill_less[of "second a" 2 "second b"] zfill_inj[of "second a" 2 "second b"]
    by auto
  define fa where
    "fa = (if microsecond a \<noteq> 0 then ''.'' @ zfill 6 (microsecond a) else []) @ ''+00:00''"
  define fb where
    "fb = (if microsecond b \<noteq> 0 then ''.'' @ zfill 6 (microsecond b) else []) @ ''+00:00''"
  have fr: "fa < fb \<longleftrightarrow> microsecond a < microsecond b"
    unfolding fa_def fb_def using ba bb by (intro fraction_less) simp_all
  have ia: "isoformat a =
      zfill 4 (year a) @ ''-'' @ zfill 2 (month a) @ ''-'' @ zfill 2 (day a) @ ''T'' @
      zfill 2 (hour a) @ '':'' @ zfill 2 (minute a) @ '':'' @ zfill 2 (second a) @ fa"
    by (simp add: isoformat_def fa_def)
  have ib: "isoformat b =
      zfill 4 (year b) @ ''-'' @ zfill 2 (month b) @ ''-'' @ zfill 2 (day b) @ ''T'' @
      zfill 2 (hour b) @ '':'' @ zfill 2 (minute b) @ '':'' @ zfill 2 (second b) @ fb"
    by (simp add: isoformat_def fb_def)
  have "isoformat a < isoformat b \<longleftrightarrow>
      year a < year b \<or> year a = year b \<and>
      (month a < month b \<or> month a = month b \<and>
      (day a < day b \<or> day a = day b \<and>
      (hour a < hour b \<or> hour a = hour b \<and>
      (minute a < minute b \<or> minute a = minute b \<and>
      (second a < second b \<or> second a = second b \<and>
       microsecond a < microsecond b)))))"
    unfolding ia ib
    by (simp add: append_less_same_length y mo dd h mi se fr)
  then show ?thesis by (simp add: chrono_def)
qed

lemma isoformat_le:
  assumes "valid_datetime a" "valid_datetime b"
  shows "isoformat a \<le> isoformat b \<longleftrightarrow> chrono a \<le> chrono b"
proof -
  have "isoformat a = isoformat b \<longleftrightarrow> chrono a = chrono b"
    using isoformat_inj[OF assms] by (cases a; cases b) (auto simp: chrono_def)
  with isoformat_less[OF assms] show ?thesis by (simp add: le_less)
qed

subsection \<open>The store\<close>

lemma from_to_document:
  assumes "valid_datetime (timestamp a)"
  shows "from_document (to_document a) = Inr a"
  using fromisoformat_isoformat[OF assms]
  by (simp add: from_document_def to_document_def)

lemma build_analysis_timestamp:
  "build_analysis e name gd ai = Inr a \<Longrightarrow> timestamp a = clock e"
  by (auto simp: build_analysis_def and_then_eq_Inr)

lemma run_analysis_timestamp:
  "run_analysis loads e github_url = Inr a \<Longrightarrow> timestamp a = clock e"
  by (auto simp: run_analysis_def Let_def and_then_eq_Inr dest: build_analysis_timestamp)

lemma handler_store:
  assumes "analyze_github_profile loads e store github_url = (response, store')"
  shows "store' = store \<or> (\<exists>a. store' = store @ [to_document a] \<and> timestamp a = clock e)"
proof (cases "run_analysis loads e github_url")
  case (Inl err)
  with assms show ?thesis
    by (cases err) (auto simp: analyze_github_profile_def)
next
  case (Inr a)
  with assms run_analysis_timestamp[OF Inr] show ?thesis
    by (auto simp: analyze_github_profile_def split: sum.splits dest: insert_one_Inr)
qed

lemma fromisoformat_valid: "fromisoformat s = Some d \<Longrightarrow> valid_datetime d"
  by (auto simp: fromisoformat_def Let_def split: if_splits option.splits)

lemma written_to_document:
  "valid_datetime (timestamp a) \<Longrightarrow> written_by_service (to_document a)"
  by (simp add: written_by_service_def to_document_def fromisoformat_isoformat)

lemma reachable_written: "reachable store \<Longrightarrow> list_all written_by_service store"
proof (induction rule: reachable.induct)
  case empty_store
  then show ?case by simp
next
  case (handled store e loads github_url response store')
  from handler_store[OF handled.hyps(3)] handled.IH handled.hyps(2)
  show ?case by (auto simp: written_to_document)
qed

lemma from_documents_written:
  "list_all written_by_service docs \<Longrightarrow>
     \<exists>as. from_documents docs = Inr as \<and> map to_document as = docs \<and>
          list_all (\<lambda>a. valid_datetime (timestamp a)) as"
proof (induction docs)
  case Nil
  then show ?case by simp
next
  case (Cons doc docs)
  then obtain as where as: "from_documents docs = Inr as" "map to_document as = docs"
    "list_all (\<lambda>a. valid_datetime (timestamp a)) as"
    by auto
  from Cons.prems obtain d where d: "fromisoformat (timestamp doc) = Some d"
    "isoformat d = timestamp doc"
    by (auto simp: written_by_service_def split: option.splits)
  define a where "a = \<lparr> analysis_id = analysis_id doc, username = username doc,
                overall_score = overall_score doc, score_breakdown = score_breakdown doc,
                strengths = strengths doc, weaknesses = weaknesses doc,
                recommendations = recommendations doc, profile_info = profile_info doc,
                timestamp = d \<rparr>"
  have "from_document doc = Inr a" using d(1) by (simp add: from_document_def a_def)
  moreover have "to_document a = doc" using d(2) by (simp add: to_document_def a_def)
  moreover have "valid_datetime (timestamp a)"
    using fromisoformat_valid[OF d(1)] by (simp add: a_def)
  ultimately show ?case using as by simp
qed

lemma find_recent_sorted:
  "sorted_wrt (\<lambda>x y. timestamp y \<le> timestamp x) (find_recent store)"
proof -
  have "sorted (map timestamp (sort_key timestamp store))" by (rule sorted_sort_key)
  then have "sorted_wrt (\<lambda>x y. timestamp x \<le> timestamp y) (sort_key timestamp store)"
    by (simp add: sorted_wrt_map)
  then have "sorted_wrt (\<lambda>x y. timestamp y \<le> timestamp x) (rev (sort_key timestamp store))"
    by (simp add: sorted_wrt_rev)
  then show ?thesis unfolding find_recent_def by (rule sorted_wrt_take)
qed

lemma find_recent_subset: "set (find_recent store) \<subseteq> set store"
  unfolding find_recent_def using set_take_subset[of 10 "rev (sort_key timestamp store)"]
  by simp

lemma recent_of_written:
  assumes "list_all written_by_service store"
  shows "\<exists>analyses. get_recent_analyses store = Ok200 analyses \<and> length analyses \<le> 10 \<and>
           sorted_wrt (\<lambda>a b. chrono (timestamp b) \<le> chrono (timestamp a)) analyses \<and>
           map to_document analyses = find_recent store \<and>
           list_all (\<lambda>a. valid_datetime (timestamp a)) analyses"
proof -
  from assms find_recent_subset[of store] have "list_all written_by_service (find_recent store)"
    by (auto simp: list_all_iff)
  from from_documents_written[OF this] obtain as where
    as: "from_documents (find_recent store) = Inr as" "map to_document as = find_recent store"
    "list_all (\<lambda>a. valid_datetime (timestamp a)) as"
    by blast
  from as(1) have g: "get_recent_analyses store = Ok200 as"
    by (simp add: get_recent_analyses_def)
  have "length as = length (find_recent store)"
    using as(2) by (metis length_map)
  then have len: "length as \<le> 10" by (simp add: find_recent_def)
  have "sorted_wrt (\<lambda>x y. timestamp y \<le> timestamp x) (map to_document as)"
    unfolding as(2) by (rule find_recent_sorted)
  then have "sorted_wrt (\<lambda>a b. isoformat (timestamp b) \<le> isoformat (timestamp a)) as"
    by (simp add: sorted_wrt_map to_document_def)
  then have "sorted_wrt (\<lambda>a b. chrono (timestamp b) \<le> chrono (timestamp a)) as"
  proof (rule sorted_wrt_mono_rel[rotated])
    fix a b assume "a \<in> set as" "b \<in> set as"
      and le: "isoformat (timestamp b) \<le> isoformat (timestamp a)"
    with as(3) have "valid_datetime (timestamp a)" "valid_datetime (timestamp b)"
      by (auto simp: list_all_iff)
    with le show "chrono (timestamp b) \<le> chrono (timestamp a)"
      by (simp add: isoformat_le)
  qed
  with g len as show ?thesis by blast
qed

subsection \<open>Two requests in a row\<close>

lemma get_readme_clock: "get_readme (e\<lparr>clock := t\<rparr>) u r = get_readme e u r"
  by (simp add: get_readme_def split: sum.splits)

lemma scan_repos_clock:
  "scan_repos (e\<lparr>clock := t\<rparr>) u rs st = scan_repos e u rs st"
proof (induction rs arbitrary: st)
  case Nil
  then show ?case by simp
next
  case (Cons r rs)
  obtain ls nr nd where "st = (ls, nr, nd)" by (cases st)
  with Cons show ?case by (simp add: get_readme_clock)
qed

lemma analyze_profile_clock:
  "analyze_profile (e\<lparr>clock := t\<rparr>) u = analyze_profile e u"
  by (simp add: analyze_profile_def get_user_profile_def get_repositories_def scan_repos_clock)

lemma later_handler:
  "analyze_github_profile loads later_env store ''https://github.com/octocat'' =
     (Ok200 later_record, store @ [to_document later_record])"
proof -
  have "build_analysis later_env ''octocat'' octocat_summary default_analysis =
      Inr later_record"
    by (simp add: build_analysis_def default_analysis_def int_field_def default_record_def
        octocat_summary_def world_def later_env_def later_record_def octocat_env_def)
  then have "run_analysis loads later_env ''https://github.com/octocat'' = Inr later_record"
    unfolding run_analysis_def derive_octocat_url Let_def
    by (simp add: later_env_def analyze_profile_clock octocat_analyze_profile
        octocat_generate_down octocat_env_def)
  moreover have "insert_one later_env store (to_document later_record) =
      Inr (store @ [to_document later_record])"
    by (rule insert_one_accepted)
      (simp_all add: encodable_def to_document_def later_record_def default_record_def
        int64_def later_env_def octocat_env_def)
  ultimately show ?thesis
    by (simp add: analyze_github_profile_def later_record_def default_record_score)
qed

lemma valid_sample_time: "valid_datetime sample_time"
  by (simp add: valid_datetime_def sample_time_def days_in_month_def is_leap_def)

lemma valid_later_time: "valid_datetime later_time"
  by (simp add: valid_datetime_def later_time_def days_in_month_def is_leap_def)

lemma zfill_2: "zfill 2 n = [digit (n div 10), digit n]"
  by (simp add: numeral_2_eq_2)

lemma zfill_4:
  "zfill 4 n = [digit (n div 10 div 10 div 10), digit (n div 10 div 10), digit (n div 10), digit n]"
proof -
  have "(4::nat) = Suc (Suc (Suc (Suc 0)))" by simp
  then show ?thesis by (simp only: zfill.simps append_Cons append_Nil)
qed

lemma zfill_6:
  "zfill 6 n = [digit (n div 10 div 10 div 10 div 10 div 10), digit (n div 10 div 10 div 10 div 10),
     digit (n div 10 div 10 div 10), digit (n div 10 div 10), digit (n div 10), digit n]"
proof -
  have "(6::nat) = Suc (Suc (Suc (Suc (Suc (Suc 0)))))" by simp
  then show ?thesis by (simp only: zfill.simps append_Cons append_Nil)
qed

lemma isoformat_sample_time: "isoformat sample_time = ''2024-01-15T10:30:00.123456+00:00''"
  by (simp add: isoformat_def sample_time_def zfill_2 zfill_4 zfill_6 digit_def char_of_def
      bit_Suc_0_iff)

lemma isoformat_later_time: "isoformat later_time = ''2024-01-15T10:30:01+00:00''"
  by (simp add: isoformat_def later_time_def zfill_2 zfill_4 digit_def char_of_def
      bit_Suc_0_iff)

lemma reachable_two:
  "reachable [to_document default_record, to_document later_record]"
proof -
  have c1: "valid_datetime (clock octocat_env)"
    by (simp add: octocat_env_def world_def valid_sample_time)
  have c2: "valid_datetime (clock later_env)"
    by (simp add: later_env_def valid_later_time)
  from handled[OF empty_store c1 octocat_handler[of table_loads "[]"]]
  have "reachable [to_document default_record]" by simp
  from handled[OF this c2 later_handler[of table_loads]]
  show ?thesis by simp
qed

lemma recent_two:
  "get_recent_analyses [to_document default_record, to_document later_record] =
     Ok200 [later_record, default_record]"
proof -
  have t: "timestamp (to_document default_record) = ''2024-01-15T10:30:00.123456+00:00''"
    "timestamp (to_document later_record) = ''2024-01-15T10:30:01+00:00''"
    by (simp_all add: to_document_def default_record_def later_record_def
        isoformat_sample_time isoformat_later_time)
  have f: "find_recent [to_document default_record, to_document later_record] =
      [to_document later_record, to_document default_record]"
    by (simp add: find_recent_def t less_char_def)
  have v: "valid_datetime (timestamp default_record)" "valid_datetime (timestamp later_record)"
    by (simp_all add: default_record_def later_record_def valid_sample_time valid_later_time)
  show ?thesis
    by (simp add: get_recent_analyses_def f from_to_document v)
qed

section \<open>The overall score\<close>

text \<open>
  C1. When the scoring payload's \<^verbatim>\<open>score_breakdown\<close> has exactly the six integer fields
  and the handler answers 200, the record's breakdown holds those six values and its
  \<^verbatim>\<open>overall_score\<close> is the floor of their sum divided by 6: the integer \<open>q\<close> with
  \<open>6 * q \<le> sum < 6 * q + 6\<close>, which is \<open>sum div 6\<close>.
\<close>

theorem overall_score_floor_mean:
  assumes "analyze_github_profile loads e store github_url = (Ok200 a, store')"
    and "analyze_profile e (derive_username github_url) = Inr github_data"
    and "generate_analysis loads (llm_reply e) github_data = Inr ai_analysis"
    and "py_getitem ai_analysis ''score_breakdown'' = Inr (JObj kvs)"
    and "exactly_six_ints kvs"
  shows "score_breakdown a =
           \<lparr> documentation = field_value kvs ''documentation'',
             code_structure = field_value kvs ''code_structure'',
             activity_consistency = field_value kvs ''activity_consistency'',
             repository_organization = field_value kvs ''repository_organization'',
             project_impact = field_value kvs ''project_impact'',
             technical_depth = field_value kvs ''technical_depth'' \<rparr> \<and>
         overall_score a = breakdown_total kvs div 6 \<and>
         6 * overall_score a \<le> breakdown_total kvs \<and>
         breakdown_total kvs < 6 * overall_score a + 6"
proof -
  from assms(1) have "run_analysis loads e github_url = Inr a" by (rule handler_Ok200D)
  with assms(2,3) have
    b: "build_analysis e (derive_username github_url) github_data ai_analysis = Inr a"
    by (simp add: run_analysis_def)
  have t: "breakdown_total kvs =
      field_value kvs ''documentation'' + field_value kvs ''code_structure'' +
      field_value kvs ''activity_consistency'' + field_value kvs ''repository_organization'' +
      field_value kvs ''project_impact'' + field_value kvs ''technical_depth''"
    by (simp add: breakdown_total_def breakdown_fields_def)
  have c: "compute_overall (JObj kvs) = Inr (breakdown_total kvs div 6)"
    by (simp add: six_fields_sum[OF assms(5)] six_fields_length[OF assms(5)] t)
  from b have
    "score_breakdown a =
           \<lparr> documentation = field_value kvs ''documentation'',
             code_structure = field_value kvs ''code_structure'',
             activity_consistency = field_value kvs ''activity_consistency'',
             repository_organization = field_value kvs ''repository_organization'',
             project_impact = field_value kvs ''project_impact'',
             technical_depth = field_value kvs ''technical_depth'' \<rparr>"
    and o: "overall_score a = breakdown_total kvs div 6"
    by (auto simp: build_analysis_def assms(4) c six_fields_validate[OF assms(5)]
          and_then_eq_Inr
        simp del: compute_overall.simps validate_breakdown.simps)
  moreover from o have "6 * overall_score a \<le> breakdown_total kvs"
    and "breakdown_total kvs < 6 * overall_score a + 6"
    by presburger+
  ultimately show ?thesis by blast
qed

theorem overall_score_floor_mean_witness:
  "exactly_six_ints
     [(''documentation'', JInt 60), (''code_structure'', JInt 65),
      (''activity_consistency'', JInt 55), (''repository_organization'', JInt 60),
      (''project_impact'', JInt 50), (''technical_depth'', JInt 60)] \<and>
   analyze_github_profile table_loads octocat_env [] ''https://github.com/octocat'' =
     (Ok200 default_record, [to_document default_record]) \<and>
   breakdown_total
     [(''documentation'', JInt 60), (''code_structure'', JInt 65),
      (''activity_consistency'', JInt 55), (''repository_organization'', JInt 60),
      (''project_impact'', JInt 50), (''technical_depth'', JInt 60)] = 350 \<and>
   overall_score default_record = 350 div 6 \<and>
   overall_score default_record = 58"
proof -
  have h: "analyze_github_profile table_loads octocat_env [] ''https://github.com/octocat'' =
     (Ok200 default_record, [] @ [to_document default_record])"
    by (rule octocat_handler)
  have g: "analyze_profile octocat_env (derive_username ''https://github.com/octocat'') =
     Inr octocat_summary"
    by (simp add: derive_octocat_url octocat_analyze_profile octocat_env_def)
  have b: "py_getitem default_analysis ''score_breakdown'' = Inr (JObj
     [(''documentation'', JInt 60), (''code_structure'', JInt 65),
      (''activity_consistency'', JInt 55), (''repository_organization'', JInt 60),
      (''project_impact'', JInt 50), (''technical_depth'', JInt 60)])"
    by (simp add: default_analysis_def)
  from overall_score_floor_mean[OF h g octocat_generate b default_breakdown_six]
    h default_breakdown_six
  show ?thesis by (simp add: field_value_def breakdown_total_def breakdown_fields_def)
qed

section \<open>The fallback payload\<close>

text \<open>
  C2, as amended. Once the profile has been aggregated and the prompt built, so that the
  scoring call is made: if the call raises, or the text it returns (after the fence
  surgery) is not JSON, the handler builds the record with the fixed default breakdown
  60, 65, 55, 60, 50, 60 (overall score 58) and hands it to the store with its time stamp
  written as ISO-8601 text. When every integer of the record fits in 8 bytes and the
  database does not refuse the insert, POST \<^verbatim>\<open>/api/analyze\<close> answers 200 with that record
  and the store holds exactly one more document, that record; otherwise it answers 500 and
  the store is unchanged.
\<close>

theorem scoring_failure_uses_default:
  assumes "analyze_profile e (derive_username github_url) = Inr github_data"
    and "render_prompt github_data = Inr ()"
    and "(\<exists>err. llm_reply e = Inl err) \<or>
         (\<exists>response piece. llm_reply e = Inr response \<and> fenced_text response = Inr piece \<and>
            loads (strip piece) = None)"
  shows "analyze_github_profile loads e store github_url =
           (if \<not> encodable
                 (fallback_record e (derive_username github_url) github_data
                    (isoformat (clock e)))
              then (Failed 500 (AnalysisFailed OverflowError), store)
            else if insert_refused e
              then (Failed 500 (AnalysisFailed PyMongoError), store)
            else (Ok200 (fallback_record e (derive_username github_url) github_data (clock e)),
                  store @ [fallback_record e (derive_username github_url) github_data
                             (isoformat (clock e))]))"
proof -
  let ?name = "derive_username github_url"
  from assms(3) obtain err where "parse_response loads (llm_reply e) = Inl err"
    by (auto simp: parse_response_def)
  with assms(2) have g: "generate_analysis loads (llm_reply e) github_data = Inr default_analysis"
    by (rule generate_analysis_fallback)
  from analyze_profile_profile_dict[OF assms(1)] obtain kvs where "profile github_data = JObj kvs"
    by blast
  then have "build_analysis e ?name github_data default_analysis =
      Inr (fallback_record e ?name github_data (clock e))"
    by (rule fallback_build)
  with assms(1) g have r: "run_analysis loads e github_url =
      Inr (fallback_record e ?name github_data (clock e))"
    by (simp add: run_analysis_def)
  have s: "str_int (overall_score (fallback_record e ?name github_data (clock e))) = Inr ()"
    by (simp add: fallback_record_def)
  show ?thesis
    by (simp add: analyze_github_profile_def r fallback_document insert_one_def s)
qed

theorem scoring_failure_uses_default_witness:
  "analyze_profile octocat_env (derive_username ''https://github.com/octocat'') =
     Inr octocat_summary \<and>
   render_prompt octocat_summary = Inr () \<and>
   llm_reply octocat_env = Inl GeneratorError \<and>
   analyze_github_profile table_loads octocat_env [] ''https://github.com/octocat'' =
     (Ok200 default_record, [default_document]) \<and>
   llm_reply (world octocat_repos (Inr ''Sorry, no JSON today'')) =
     Inr ''Sorry, no JSON today'' \<and>
   fenced_text ''Sorry, no JSON today'' = Inr ''Sorry, no JSON today'' \<and>
   table_loads (strip ''Sorry, no JSON today'') = None \<and>
   analyze_github_profile table_loads (world octocat_repos (Inr ''Sorry, no JSON today''))
       [] ''https://github.com/octocat'' =
     (Ok200 default_record, [default_document])"
proof -
  have g1: "analyze_profile octocat_env (derive_username ''https://github.com/octocat'') =
     Inr octocat_summary"
    by (simp add: derive_octocat_url octocat_analyze_profile octocat_env_def)
  have l1: "llm_reply octocat_env = Inl GeneratorError"
    by (simp add: octocat_env_def)
  have g2: "analyze_profile (world octocat_repos (Inr ''Sorry, no JSON today''))
      (derive_username ''https://github.com/octocat'') = Inr octocat_summary"
    by (simp add: derive_octocat_url octocat_analyze_profile)
  have f2: "fenced_text ''Sorry, no JSON today'' = Inr ''Sorry, no JSON today''"
    by (simp add: fenced_text_def strip_def is_space_def contains_def)
  have t2: "table_loads (strip ''Sorry, no JSON today'') = None"
    by (simp add: table_loads_def strip_def is_space_def)
  have d1: "(\<exists>err. llm_reply octocat_env = Inl err) \<or>
         (\<exists>response piece. llm_reply octocat_env = Inr response \<and>
            fenced_text response = Inr piece \<and> table_loads (strip piece) = None)"
    using l1 by simp
  have d2: "(\<exists>err. llm_reply (world octocat_repos (Inr ''Sorry, no JSON today'')) = Inl err) \<or>
         (\<exists>response piece. llm_reply (world octocat_repos (Inr ''Sorry, no JSON today'')) =
            Inr response \<and>
            fenced_text response = Inr piece \<and> table_loads (strip piece) = None)"
    using f2 t2 by simp
  have rec: "fallback_record (world octocat_repos reply) ''octocat'' octocat_summary
      sample_time = default_record" for reply
    by (simp add: fallback_record_def default_record_def profile_entry_def
        octocat_summary_def world_def)
  have doc: "fallback_record (world octocat_repos reply) ''octocat'' octocat_summary
      ''2024-01-15T10:30:00.123456+00:00'' = default_document" for reply
    by (simp add: fallback_record_def default_document_def profile_entry_def
        octocat_summary_def world_def)
  have enc: "encodable default_document"
    by (simp add: encodable_def default_document_def int64_def)
  have clk: "clock (world octocat_repos reply) = sample_time" for reply
    by (simp add: world_def)
  from scoring_failure_uses_default[OF g1 octocat_render_prompt d1, of "[]"]
  have r1: "analyze_github_profile table_loads octocat_env [] ''https://github.com/octocat'' =
      (Ok200 default_record, [default_document])"
    by (simp add: octocat_env_def derive_octocat_url clk isoformat_sample_time rec doc enc)
  from scoring_failure_uses_default[OF g2 octocat_render_prompt d2, of "[]"]
  have r2: "analyze_github_profile table_loads
      (world octocat_repos (Inr ''Sorry, no JSON today'')) [] ''https://github.com/octocat'' =
      (Ok200 default_record, [default_document])"
    by (simp add: derive_octocat_url clk isoformat_sample_time rec doc enc)
  from g1 l1 f2 t2 octocat_render_prompt r1 r2 show ?thesis by simp
qed

text \<open>
  C2 as stated fails: the insert stands inside the \<^verbatim>\<open>try\<close> of the handler, and the
  driver's encoder raises an OverflowError on an integer beyond 8 bytes. For a user whose
  one repository has \<open>2 ^ 63\<close> stars the scoring call is reached and raises, the default
  payload is substituted, and the request is answered 500 with nothing stored.
\<close>

theorem scoring_failure_not_stored_counterexample:
  "analyze_profile (world starry_repos (Inl GeneratorError)) (derive_username ''octocat'') =
     Inr starry_summary \<and>
   render_prompt starry_summary = Inr () \<and>
   llm_reply (world starry_repos (Inl GeneratorError)) = Inl GeneratorError \<and>
   analyze_github_profile table_loads (world starry_repos (Inl GeneratorError)) []
       ''octocat'' =
     (Failed 500 (AnalysisFailed OverflowError), [])"
proof -
  have g: "analyze_profile (world starry_repos (Inl GeneratorError)) ''octocat'' =
      Inr starry_summary"
    by (simp add: analyze_profile_def get_user_profile_def get_repositories_def
        get_readme_def world_def starry_repos_def is_success_def starry_summary_def)
  have p: "render_prompt starry_summary = Inr ()"
    by (simp add: render_prompt_def starry_summary_def starry_repos_def)
  have gen: "generate_analysis table_loads (Inl GeneratorError) starry_summary =
      Inr default_analysis"
    by (simp add: generate_analysis_def p parse_response_def)
  have b: "build_analysis (world starry_repos (Inl GeneratorError)) ''octocat''
      starry_summary default_analysis =
      Inr (fallback_record (world starry_repos (Inl GeneratorError)) ''octocat''
             starry_summary sample_time)"
    using fallback_build[of starry_summary _ "world starry_repos (Inl GeneratorError)"
        "''octocat''"]
    by (simp add: starry_summary_def world_def)
  have r: "run_analysis table_loads (world starry_repos (Inl GeneratorError)) ''octocat'' =
      Inr (fallback_record (world starry_repos (Inl GeneratorError)) ''octocat''
             starry_summary sample_time)"
    unfolding run_analysis_def derive_plain_octocat Let_def
    by (simp add: g gen b)
  have e: "\<not> encodable (to_document
      (fallback_record (world starry_repos (Inl GeneratorError)) ''octocat''
         starry_summary sample_time))"
    by (simp add: encodable_def to_document_def fallback_record_def starry_summary_def
        int64_def)
  from g p r e show ?thesis
    by (simp add: derive_plain_octocat analyze_github_profile_def insert_one_def)
qed

section \<open>An absent user\<close>

text \<open>
  C3. When the hosting API answers 404 on the profile endpoint, POST \<^verbatim>\<open>/api/analyze\<close>
  answers 404 with the detail "GitHub user not found", and the store is the one it was
  before the request: no record is inserted.
\<close>

theorem profile_404_gives_404:
  assumes "profile_reply e (derive_username github_url) = Response 404 body"
  shows "analyze_github_profile loads e store github_url =
           (Failed 404 (Detail ''GitHub user not found''), store)"
  using assms
  by (simp add: analyze_github_profile_def run_analysis_def analyze_profile_def
      get_user_profile_def)

theorem profile_404_gives_404_witness:
  "profile_reply octocat_env (derive_username ''nobody'') = Response 404 None \<and>
   analyze_github_profile table_loads octocat_env [] ''nobody'' =
     (Failed 404 (Detail ''GitHub user not found''), [])"
proof -
  have h: "profile_reply octocat_env (derive_username ''nobody'') = Response 404 None"
    by (simp add: derive_nobody octocat_env_def world_def)
  from h profile_404_gives_404[OF h] show ?thesis by simp
qed

section \<open>The user name of a request\<close>

text \<open>
  C4, as amended. The stripped \<^verbatim>\<open>github_url\<close> is the input without the whitespace at its two
  ends. The user name derived from a request is that stripped text when it does not contain
  \<^verbatim>\<open>github.com/\<close>. When it does, the name is what follows the last occurrence of
  \<^verbatim>\<open>github.com/\<close> in the stripped text, without the slashes at its two ends; slashes inside
  it stay, so that the name need not be one path segment. In particular
  \<^verbatim>\<open>https://github.com/octocat\<close> and \<^verbatim>\<open>octocat\<close> both give \<^verbatim>\<open>octocat\<close>, and the address of a
  repository, \<^verbatim>\<open>https://github.com/octocat/Hello-World\<close>, gives \<^verbatim>\<open>octocat/Hello-World\<close>.
\<close>

theorem derive_username_cases:
  "(\<exists>l r. github_url = l @ strip github_url @ r \<and> list_all is_space l \<and> list_all is_space r) \<and>
   (strip github_url \<noteq> [] \<longrightarrow>
      \<not> is_space (hd (strip github_url)) \<and> \<not> is_space (last (strip github_url))) \<and>
   (\<not> contains ''github.com/'' (strip github_url) \<longrightarrow>
      derive_username github_url = strip github_url) \<and>
   (contains ''github.com/'' (strip github_url) \<longrightarrow>
      (\<exists>pre suf l r. strip github_url = pre @ ''github.com/'' @ suf \<and>
         (\<forall>pre' suf'. strip github_url = pre' @ ''github.com/'' @ suf' \<longrightarrow>
            length pre' \<le> length pre) \<and>
         suf = l @ derive_username github_url @ r \<and>
         set l \<subseteq> {CHR ''/''} \<and> set r \<subseteq> {CHR ''/''} \<and>
         (derive_username github_url \<noteq> [] \<longrightarrow>
            hd (derive_username github_url) \<noteq> CHR ''/'' \<and>
            last (derive_username github_url) \<noteq> CHR ''/''))) \<and>
   derive_username ''https://github.com/octocat'' = ''octocat'' \<and>
   derive_username ''octocat'' = ''octocat'' \<and>
   derive_username ''https://github.com/octocat/Hello-World'' = ''octocat/Hello-World''"
proof (intro conjI impI)
  show "\<exists>l r. github_url = l @ strip github_url @ r \<and> list_all is_space l \<and> list_all is_space r"
    by (rule strip_trims)
next
  assume "strip github_url \<noteq> []"
  then show "\<not> is_space (hd (strip github_url))" "\<not> is_space (last (strip github_url))"
    using strip_trims(2) by blast+
next
  assume "\<not> contains ''github.com/'' (strip github_url)"
  then show "derive_username github_url = strip github_url"
    by (simp add: derive_username_def)
next
  assume c: "contains ''github.com/'' (strip github_url)"
  let ?suf = "last (split_py ''github.com/'' (strip github_url))"
  from last_split_py[OF _ c] obtain pre where
    pre: "strip github_url = pre @ ''github.com/'' @ ?suf"
    and nc: "\<not> contains ''github.com/'' ?suf"
    by auto
  have final: "\<forall>pre' suf'. strip github_url = pre' @ ''github.com/'' @ suf' \<longrightarrow>
          length pre' \<le> length pre"
    using final_occurrence[OF pre nc _ host_border_free] by blast
  from c have d: "derive_username github_url = strip_chars ''/'' ?suf"
    by (simp add: derive_username_def)
  from strip_chars_trims(1)[of ?suf "''/''"] d obtain l r where
    lr: "?suf = l @ derive_username github_url @ r" "set l \<subseteq> {CHR ''/''}"
      "set r \<subseteq> {CHR ''/''}"
    by auto
  have ends: "derive_username github_url \<noteq> [] \<longrightarrow>
            hd (derive_username github_url) \<noteq> CHR ''/'' \<and>
            last (derive_username github_url) \<noteq> CHR ''/''"
    using strip_chars_trims(2)[of "''/''" ?suf] d by simp
  from pre final lr ends
  show "\<exists>pre suf l r. strip github_url = pre @ ''github.com/'' @ suf \<and>
         (\<forall>pre' suf'. strip github_url = pre' @ ''github.com/'' @ suf' \<longrightarrow>
            length pre' \<le> length pre) \<and>
         suf = l @ derive_username github_url @ r \<and>
         set l \<subseteq> {CHR ''/''} \<and> set r \<subseteq> {CHR ''/''} \<and>
         (derive_username github_url \<noteq> [] \<longrightarrow>
            hd (derive_username github_url) \<noteq> CHR ''/'' \<and>
            last (derive_username github_url) \<noteq> CHR ''/'')"
    by blast
next
  show "derive_username ''https://github.com/octocat/Hello-World'' = ''octocat/Hello-World''"
    by (rule derive_repository_url)
qed (rule derive_octocat_url derive_plain_octocat)+

theorem derive_username_cases_witness:
  "contains ''github.com/'' (strip '' https://github.com/octocat/ '') \<and>
   strip '' https://github.com/octocat/ '' = ''https://github.com/octocat/'' \<and>
   derive_username '' https://github.com/octocat/ '' = ''octocat'' \<and>
   \<not> contains ''github.com/'' (strip '' octocat '') \<and>
   strip '' octocat '' = ''octocat'' \<and>
   derive_username '' octocat '' = ''octocat'' \<and>
   \<not> contains ''github.com/'' (strip (CHR 0x09 # ''octocat'' @ [CHR 0x0A])) \<and>
   derive_username (CHR 0x09 # ''octocat'' @ [CHR 0x0A]) = ''octocat''"
proof -
  have c1: "contains ''github.com/'' (strip '' https://github.com/octocat/ '')"
    by (simp add: strip_def is_space_def contains_def)
  have s1: "strip '' https://github.com/octocat/ '' = ''https://github.com/octocat/''"
    by (simp add: strip_def is_space_def)
  have c2: "\<not> contains ''github.com/'' (strip '' octocat '')"
    by (simp add: strip_def is_space_def contains_def)
  have s2: "strip '' octocat '' = ''octocat''"
    by (simp add: strip_def is_space_def)
  from derive_username_cases[of "'' octocat ''"] c2 s2
  have d2: "derive_username '' octocat '' = ''octocat''" by simp
  from derive_username_cases[of "'' https://github.com/octocat/ ''"] c1 s1
  have d1: "derive_username '' https://github.com/octocat/ '' = ''octocat''"
    by (simp add: derive_username_def contains_def split_py.simps strip_chars_def)
  have s3: "strip (CHR 0x09 # ''octocat'' @ [CHR 0x0A]) = ''octocat''"
    by (simp add: strip_def is_space_def)
  have c3: "\<not> contains ''github.com/'' (strip (CHR 0x09 # ''octocat'' @ [CHR 0x0A]))"
    unfolding s3 by (simp add: contains_def)
  from derive_username_cases[of "CHR 0x09 # ''octocat'' @ [CHR 0x0A]"] c3 s3
  have d3: "derive_username (CHR 0x09 # ''octocat'' @ [CHR 0x0A]) = ''octocat''" by simp
  from c1 s1 d1 c2 s2 d2 c3 d3 show ?thesis by simp
qed

text \<open>
  C4 as stated fails: what follows the host is not cut into path segments. On the address of
  a repository the derived name is \<^verbatim>\<open>octocat/Hello-World\<close>, which has a slash inside, while
  the last path segment after the host is \<^verbatim>\<open>Hello-World\<close>.
\<close>

theorem derive_username_segment_counterexample:
  "contains ''github.com/'' (strip ''https://github.com/octocat/Hello-World'') \<and>
   derive_username ''https://github.com/octocat/Hello-World'' = ''octocat/Hello-World'' \<and>
   claimed_username ''https://github.com/octocat/Hello-World'' = ''Hello-World'' \<and>
   derive_username ''https://github.com/octocat/Hello-World'' \<noteq>
     claimed_username ''https://github.com/octocat/Hello-World''"
  by (simp add: derive_username_def claimed_username_def strip_def is_space_def contains_def
      split_py.simps strip_chars_def after_first_def)

section \<open>The text handed to the JSON parser\<close>

text \<open>
  C5, as amended. With \<open>t\<close> the stripped response: when \<open>t\<close> contains a \<^verbatim>\<open>```json\<close> marker,
  the chosen text is what stands in \<open>t\<close> between the first \<^verbatim>\<open>```json\<close> marker and the next
  \<^verbatim>\<open>```json\<close> marker (or the end), cut at its first \<^verbatim>\<open>```\<close> marker; otherwise, when \<open>t\<close>
  contains a \<^verbatim>\<open>```\<close> marker, what stands between the first \<^verbatim>\<open>```\<close> marker and the next (or
  the end); otherwise \<open>t\<close> itself. Whenever no second \<^verbatim>\<open>```json\<close> marker follows the first,
  this is the choice the claim describes (\<open>claimed_fenced_text\<close>: up to the next \<^verbatim>\<open>```\<close>
  marker). The chosen text is stripped and given to the parser.
\<close>

theorem fenced_text_choice:
  "(contains ''```json'' (strip response) \<longrightarrow>
      fenced_text response =
        Inr (before_first ''```''
               (before_first ''```json'' (after_first ''```json'' (strip response))))) \<and>
   (\<not> contains ''```json'' (strip response) \<and> contains ''```'' (strip response) \<longrightarrow>
      fenced_text response = Inr (before_first ''```'' (after_first ''```'' (strip response)))) \<and>
   (\<not> contains ''```'' (strip response) \<longrightarrow> fenced_text response = Inr (strip response)) \<and>
   (\<not> contains ''```json'' (after_first ''```json'' (strip response)) \<longrightarrow>
      fenced_text response = Inr (claimed_fenced_text response)) \<and>
   parse_response loads (Inr response) =
     (case fenced_text response of
        Inl err \<Rightarrow> Inl err
      | Inr piece \<Rightarrow>
          (case loads (strip piece) of
             None \<Rightarrow> Inl JSONDecodeError
           | Some analysis \<Rightarrow> Inr analysis))"
proof -
  let ?t = "strip response"
  have j: "contains ''```json'' ?t \<Longrightarrow>
      fenced_text response =
        Inr (before_first ''```'' (before_first ''```json'' (after_first ''```json'' ?t)))"
    by (simp add: fenced_text_def split_py_1[unfolded One_nat_def] split_py_0)
  have idem: "before_first ''```'' (before_first ''```'' (after_first ''```'' ?t)) =
      before_first ''```'' (after_first ''```'' ?t)"
    by (rule before_first_absent) (simp add: before_first_free)
  have b: "\<not> contains ''```json'' ?t \<Longrightarrow> contains ''```'' ?t \<Longrightarrow>
      fenced_text response = Inr (before_first ''```'' (after_first ''```'' ?t))"
    by (simp add: fenced_text_def split_py_1[unfolded One_nat_def] split_py_0 idem)
  have r: "\<not> contains ''```'' ?t \<Longrightarrow> fenced_text response = Inr ?t"
  proof -
    assume n: "\<not> contains ''```'' ?t"
    with contains_json_fence[of ?t] have "\<not> contains ''```json'' ?t" by blast
    with n show ?thesis by (simp add: fenced_text_def)
  qed
  have c: "\<not> contains ''```json'' (after_first ''```json'' ?t) \<Longrightarrow>
      fenced_text response = Inr (claimed_fenced_text response)"
  proof -
    assume single: "\<not> contains ''```json'' (after_first ''```json'' ?t)"
    show ?thesis
    proof (cases "contains ''```json'' ?t")
      case True
      with j single show ?thesis
        by (simp add: claimed_fenced_text_def before_first_absent)
    next
      case False
      with b r show ?thesis
        by (cases "contains ''```'' ?t") (simp_all add: claimed_fenced_text_def)
    qed
  qed
  have p: "parse_response loads (Inr response) =
     (case fenced_text response of
        Inl err \<Rightarrow> Inl err
      | Inr piece \<Rightarrow>
          (case loads (strip piece) of
             None \<Rightarrow> Inl JSONDecodeError
           | Some analysis \<Rightarrow> Inr analysis))"
    by (simp add: parse_response_def and_then_def)
  from j b r c p show ?thesis by blast
qed

theorem fenced_text_choice_witness:
  "contains ''```json'' (strip ''Here: ```json {} ``` bye'') \<and>
   \<not> contains ''```json'' (after_first ''```json'' (strip ''Here: ```json {} ``` bye'')) \<and>
   fenced_text ''Here: ```json {} ``` bye'' = Inr '' {} '' \<and>
   claimed_fenced_text ''Here: ```json {} ``` bye'' = '' {} '' \<and>
   parse_response table_loads (Inr ''Here: ```json {} ``` bye'') = Inr (JObj []) \<and>
   \<not> contains ''```json'' (strip ''``` [1, 2] ```'') \<and>
   contains ''```'' (strip ''``` [1, 2] ```'') \<and>
   fenced_text ''``` [1, 2] ```'' = Inr '' [1, 2] '' \<and>
   \<not> contains ''```'' (strip '' {} '') \<and>
   fenced_text '' {} '' = Inr ''{}''"
proof -
  have e: "strip ''Here: ```json {} ``` bye'' = ''Here: ```json {} ``` bye''"
    "strip ''``` [1, 2] ```'' = ''``` [1, 2] ```''" "strip '' {} '' = ''{}''"
    "strip '' {} '' = ''{}''"
    by (simp_all add: strip_def is_space_def)
  have c1: "contains ''```json'' (strip ''Here: ```json {} ``` bye'')"
    and c2: "\<not> contains ''```json'' (after_first ''```json'' (strip ''Here: ```json {} ``` bye''))"
    and c3: "\<not> contains ''```json'' (strip ''``` [1, 2] ```'')"
    and c4: "contains ''```'' (strip ''``` [1, 2] ```'')"
    and c5: "\<not> contains ''```'' (strip '' {} '')"
    by (simp_all add: e contains_def after_first_def)
  from fenced_text_choice[of "''Here: ```json {} ``` bye''" table_loads]
    fenced_text_choice[of "''``` [1, 2] ```''" table_loads]
    fenced_text_choice[of "'' {} ''" table_loads] c1 c2 c3 c4 c5
  show ?thesis
    by (simp add: e claimed_fenced_text_def contains_def before_first_def after_first_def
        table_loads_def strip_def is_space_def)
qed

text \<open>
  C5 as stated fails on a response with two \<^verbatim>\<open>```json\<close> markers, the second one right
  after a backtick: the content up to the next \<^verbatim>\<open>```\<close> marker is \<^verbatim>\<open>{}\<close>, which decodes,
  while the service cuts at the second \<^verbatim>\<open>```json\<close> marker, keeps the backtick, and the
  decoding fails.
\<close>

theorem fenced_text_choice_counterexample:
  "fenced_text ''```json{}````json'' = Inr ''{}`'' \<and>
   claimed_fenced_text ''```json{}````json'' = ''{}'' \<and>
   parse_response table_loads (Inr ''```json{}````json'') = Inl JSONDecodeError \<and>
   table_loads (strip (claimed_fenced_text ''```json{}````json'')) = Some (JObj [])"
  by (simp add: fenced_doubled parse_response_def claimed_fenced_text_def strip_def
      is_space_def contains_def before_first_def after_first_def table_loads_def)

section \<open>Whether the scoring client can raise\<close>

text \<open>
  C6, as amended. For every summary \<^verbatim>\<open>analyze_profile\<close> produces in which every language of
  the tally is a string and no integer of the profile, of the repositories or of the two
  totals has more than 4300 digits, \<^verbatim>\<open>generate_analysis\<close> does not raise, whatever the
  generator answers: it returns the decoded payload, or the default when the call or the
  decoding raised.
\<close>

theorem generate_analysis_total:
  assumes "analyze_profile e u = Inr github_data"
    and "list_all is_str (map fst (languages github_data))"
    and "printable (profile github_data)"
    and "printable (repositories github_data)"
    and "int_printable (total_stars github_data)"
    and "int_printable (total_forks github_data)"
  shows "generate_analysis loads reply github_data =
           Inr (case parse_response loads reply of
                  Inl err \<Rightarrow> default_analysis
                | Inr analysis \<Rightarrow> analysis)"
  using analyze_profile_prompt[OF assms]
  by (simp add: generate_analysis_def split: sum.splits)

theorem generate_analysis_total_witness:
  "analyze_profile octocat_env ''octocat'' = Inr octocat_summary \<and>
   list_all is_str (map fst (languages octocat_summary)) \<and>
   printable (profile octocat_summary) \<and>
   printable (repositories octocat_summary) \<and>
   int_printable (total_stars octocat_summary) \<and>
   int_printable (total_forks octocat_summary) \<and>
   generate_analysis table_loads (Inl GeneratorError) octocat_summary = Inr default_analysis \<and>
   generate_analysis table_loads (Inr ''{}'') octocat_summary = Inr (JObj [])"
proof -
  have g: "analyze_profile octocat_env ''octocat'' = Inr octocat_summary"
    by (simp add: octocat_analyze_profile octocat_env_def)
  have s: "list_all is_str (map fst (languages octocat_summary))"
    by (simp add: octocat_summary_def)
  have pp: "printable (profile octocat_summary)"
    by (simp add: octocat_summary_def int_printable_small)
  have pr: "printable (repositories octocat_summary)"
    by (simp add: octocat_summary_def octocat_repos_def int_printable_small)
  have ps: "int_printable (total_stars octocat_summary)"
    by (simp add: octocat_summary_def int_printable_small)
  have pf: "int_printable (total_forks octocat_summary)"
    by (simp add: octocat_summary_def int_printable_small)
  have p1: "parse_response table_loads (Inl GeneratorError) = Inl GeneratorError"
    by (simp add: parse_response_def)
  have p2: "parse_response table_loads (Inr ''{}'') = Inr (JObj [])"
    by (simp add: parse_response_def fenced_braces table_loads_def strip_def is_space_def)
  from generate_analysis_total[OF g s pp pr ps pf, of table_loads "Inl GeneratorError"]
    generate_analysis_total[OF g s pp pr ps pf, of table_loads "Inr ''{}''"] g s pp pr ps pf
  show ?thesis by (simp add: p1 p2)
qed

text \<open>
  C6 as stated fails: the f-string of the prompt stands before the \<^verbatim>\<open>try\<close>, and
  \<^verbatim>\<open>', '.join\<close> of the tally's keys raises a TypeError when a repository's
  \<^verbatim>\<open>language\<close> is the number 5. \<^verbatim>\<open>analyze_profile\<close> produces the summary, and
  \<^verbatim>\<open>generate_analysis\<close> raises on it. It raises a ValueError as well, with strings for
  languages, on two repositories of \<open>9 * 10 ^ 4299\<close> stars each, whose total of 4301
  digits the f-string cannot write.
\<close>

theorem generate_analysis_raises_counterexample:
  "analyze_profile (world numbered_repos (Inl GeneratorError)) ''octocat'' =
     Inr numbered_summary \<and>
   generate_analysis table_loads (llm_reply (world numbered_repos (Inl GeneratorError)))
     numbered_summary = Inl TypeError \<and>
   analyze_profile (world long_repos (Inl GeneratorError)) ''octocat'' = Inr long_summary \<and>
   list_all is_str (map fst (languages long_summary)) \<and>
   printable (profile long_summary) \<and>
   printable (repositories long_summary) \<and>
   generate_analysis table_loads (llm_reply (world long_repos (Inl GeneratorError)))
     long_summary = Inl ValueError"
proof -
  have "analyze_profile (world numbered_repos (Inl GeneratorError)) ''octocat'' =
     Inr numbered_summary \<and>
   generate_analysis table_loads (llm_reply (world numbered_repos (Inl GeneratorError)))
     numbered_summary = Inl TypeError"
    by (simp add: analyze_profile_def get_user_profile_def get_repositories_def get_readme_def
        world_def numbered_repos_def is_success_def numbered_summary_def key_eq_def
        generate_analysis_def render_prompt_def)
  moreover have "list_all is_str (map fst (languages long_summary))"
    "printable (profile long_summary)"
    by (simp_all add: long_summary_def int_printable_small)
  moreover have "generate_analysis table_loads
      (llm_reply (world long_repos (Inl GeneratorError))) long_summary = Inl ValueError"
    by (simp add: generate_analysis_def long_render_prompt)
  ultimately show ?thesis
    using long_analyze_profile[of "Inl GeneratorError"] long_repos_printable by simp
qed

section \<open>What the aggregate is computed over\<close>

text \<open>
  C7. For the repository list \<open>rs\<close> the fetcher returned, the summary of
  \<^verbatim>\<open>analyze_profile\<close> sums stars and forks over all of \<open>rs\<close>, while the top-repository list
  is the first ten entries of \<open>rs\<close> and the README count, the description count and every
  entry of the language tally count repositories among those first ten only. With no
  repository the sums and counts are 0 and the tally and the top list are empty.
\<close>

theorem aggregate_scopes:
  assumes "analyze_profile e u = Inr gd"
    and "repositories gd = JList rs"
  shows "total_stars gd = (\<Sum>r\<leftarrow>rs. count_of ''stargazers_count'' r) \<and>
         total_forks gd = (\<Sum>r\<leftarrow>rs. count_of ''forks_count'' r) \<and>
         top_repos gd = JList (take 10 rs) \<and>
         repos_with_readme gd = int (length (filter (has_readme e u) (take 10 rs))) \<and>
         repos_with_description gd = int (length (filter has_description (take 10 rs))) \<and>
         (\<forall>l. tally_get (languages gd) l =
                int (length (filter (has_language l) (take 10 rs)))) \<and>
         (rs = [] \<longrightarrow>
            total_stars gd = 0 \<and> total_forks gd = 0 \<and> languages gd = [] \<and>
            repos_with_readme gd = 0 \<and> repos_with_description gd = 0 \<and>
            top_repos gd = JList [])"
proof -
  from analyze_profile_parts[OF assms(1)] obtain all_repos top_list where
    it: "py_iter (repositories gd) = Inr all_repos"
    and stars0: "sum_field ''stargazers_count'' 0 all_repos = Inr (total_stars gd)"
    and forks0: "sum_field ''forks_count'' 0 all_repos = Inr (total_forks gd)"
    and sl: "py_slice 10 (repositories gd) = Inr (top_repos gd)"
    and it10: "py_iter (top_repos gd) = Inr top_list"
    and scan0: "scan_repos e u top_list ([], 0, 0) =
             Inr (languages gd, repos_with_readme gd, repos_with_description gd)"
    by blast
  from it assms(2) have "all_repos = rs" by simp
  with stars0 forks0 have
    stars: "sum_field ''stargazers_count'' 0 rs = Inr (total_stars gd)"
    and forks: "sum_field ''forks_count'' 0 rs = Inr (total_forks gd)"
    by simp_all
  from sl assms(2) have top: "top_repos gd = JList (take 10 rs)" by simp
  with it10 have "top_list = take 10 rs" by simp
  with scan0 have scan: "scan_repos e u (take 10 rs) ([], 0, 0) =
             Inr (languages gd, repos_with_readme gd, repos_with_description gd)"
    by simp
  note closed = scan_repos_closed[OF scan]
  have empty: "rs = [] \<longrightarrow> languages gd = []"
    using scan by auto
  from sum_field_closed[OF stars] sum_field_closed[OF forks] top closed empty
  show ?thesis by simp
qed

theorem aggregate_scopes_witness:
  "analyze_profile octocat_env ''octocat'' = Inr octocat_summary \<and>
   repositories octocat_summary = octocat_repos \<and>
   total_stars octocat_summary = 3 \<and> total_forks octocat_summary = 2 \<and>
   top_repos octocat_summary = octocat_repos \<and>
   repos_with_readme octocat_summary = 1 \<and> repos_with_description octocat_summary = 1 \<and>
   tally_get (languages octocat_summary) (JStr ''Python'') = 1 \<and>
   tally_get (languages octocat_summary) (JStr ''Rust'') = 0 \<and>
   analyze_profile (world (JList []) (Inl GeneratorError)) ''octocat'' = Inr empty_summary \<and>
   repositories empty_summary = JList [] \<and>
   total_stars empty_summary = 0 \<and> total_forks empty_summary = 0 \<and>
   languages empty_summary = [] \<and> repos_with_readme empty_summary = 0 \<and>
   repos_with_description empty_summary = 0 \<and> top_repos empty_summary = JList []"
proof -
  have g: "analyze_profile octocat_env ''octocat'' = Inr octocat_summary"
    by (simp add: octocat_analyze_profile octocat_env_def)
  have r: "repositories octocat_summary = JList
     [JObj [(''name'', JStr ''hello''), (''language'', JStr ''Python''),
            (''stargazers_count'', JInt 3)],
      JObj [(''name'', JStr ''world''), (''description'', JStr ''x''),
            (''forks_count'', JInt 2)]]"
    by (simp add: octocat_summary_def octocat_repos_def)
  have r0: "repositories empty_summary = JList []"
    by (simp add: empty_summary_def)
  from aggregate_scopes[OF g r] aggregate_scopes[OF empty_analyze_profile r0] g r r0
    empty_analyze_profile
  show ?thesis
    by (simp add: count_of_def has_readme_def has_description_def has_language_def
        get_readme_def octocat_env_def world_def key_eq_def octocat_repos_def)
qed

section \<open>The recent results\<close>

text \<open>
  C8. For every store the service can have (reached from the empty collection by requests
  to POST \<^verbatim>\<open>/api/analyze\<close>), GET \<^verbatim>\<open>/api/analyses\<close> answers 200 with at most ten records,
  whose timestamps never increase from one record to the next (newest first); each record
  is a stored document with its ISO-8601 text read back into a timestamp.
\<close>

theorem recent_analyses_newest_first:
  assumes "reachable store"
  shows "\<exists>analyses. get_recent_analyses store = Ok200 analyses \<and> length analyses \<le> 10 \<and>
           sorted_wrt (\<lambda>a b. chrono (timestamp b) \<le> chrono (timestamp a)) analyses \<and>
           map to_document analyses = find_recent store"
  using recent_of_written[OF reachable_written[OF assms]] by blast

theorem recent_analyses_newest_first_witness:
  "reachable [to_document default_record, to_document later_record] \<and>
   get_recent_analyses [to_document default_record, to_document later_record] =
     Ok200 [later_record, default_record] \<and>
   timestamp (to_document default_record) = ''2024-01-15T10:30:00.123456+00:00'' \<and>
   timestamp (to_document later_record) = ''2024-01-15T10:30:01+00:00'' \<and>
   (\<exists>analyses.
      get_recent_analyses [to_document default_record, to_document later_record] =
        Ok200 analyses \<and>
      length analyses \<le> 10 \<and>
      sorted_wrt (\<lambda>a b. chrono (timestamp b) \<le> chrono (timestamp a)) analyses)"
proof -
  have t: "timestamp (to_document default_record) = ''2024-01-15T10:30:00.123456+00:00''"
    "timestamp (to_document later_record) = ''2024-01-15T10:30:01+00:00''"
    by (simp_all add: to_document_def default_record_def later_record_def
        isoformat_sample_time isoformat_later_time)
  from recent_analyses_newest_first[OF reachable_two] reachable_two recent_two t
  show ?thesis by blast
qed

section \<open>The round trip of a timestamp\<close>

text \<open>
  C9. A record the handler persists is appended as a document whose timestamp is the
  ISO-8601 text of the record's timestamp; reading that text back gives the same instant,
  microsecond included, and the document read back is the record. When GET
  \<^verbatim>\<open>/api/analyses\<close> selects the document, the record it returns is that record.
\<close>

theorem timestamp_round_trip:
  assumes "analyze_github_profile loads e store github_url = (Ok200 a, store')"
    and "valid_datetime (clock e)"
  shows "store' = store @ [to_document a] \<and>
         timestamp (to_document a) = isoformat (timestamp a) \<and>
         fromisoformat (timestamp (to_document a)) = Some (timestamp a) \<and>
         from_document (to_document a) = Inr a \<and>
         (reachable store \<longrightarrow>
            (\<exists>analyses. get_recent_analyses store' = Ok200 analyses \<and>
               (to_document a \<in> set (find_recent store') \<longrightarrow> a \<in> set analyses)))"
proof -
  from handler_Ok200D[OF assms(1)] have run: "run_analysis loads e github_url = Inr a"
    and st: "store' = store @ [to_document a]" by simp_all
  from run_analysis_timestamp[OF run] assms(2) have v: "valid_datetime (timestamp a)"
    by simp
  have ts: "timestamp (to_document a) = isoformat (timestamp a)"
    by (simp add: to_document_def)
  have rt: "from_document (to_document a) = Inr a" by (rule from_to_document[OF v])
  have recent: "\<exists>analyses. get_recent_analyses store' = Ok200 analyses \<and>
               (to_document a \<in> set (find_recent store') \<longrightarrow> a \<in> set analyses)"
    if r: "reachable store"
  proof -
    from r assms(2,1) have "reachable store'" by (rule handled)
    from recent_of_written[OF reachable_written[OF this]] obtain as where
      as: "get_recent_analyses store' = Ok200 as" "map to_document as = find_recent store'"
      "list_all (\<lambda>a. valid_datetime (timestamp a)) as"
      by blast
    have "a \<in> set as" if "to_document a \<in> set (find_recent store')"
    proof -
      from that as(2) obtain a' where a': "a' \<in> set as" "to_document a' = to_document a"
        by (metis (no_types, lifting) imageE list.set_map)
      with as(3) have "valid_datetime (timestamp a')" by (auto simp: list_all_iff)
      from from_to_document[OF this] a'(2) rt have "a' = a" by simp
      with a'(1) show ?thesis by simp
    qed
    with as(1) show ?thesis by blast
  qed
  from st ts rt recent fromisoformat_isoformat[OF v] show ?thesis by simp
qed

theorem timestamp_round_trip_witness:
  "analyze_github_profile table_loads octocat_env [] ''https://github.com/octocat'' =
     (Ok200 default_record, [to_document default_record]) \<and>
   valid_datetime (clock octocat_env) \<and>
   timestamp (to_document default_record) = ''2024-01-15T10:30:00.123456+00:00'' \<and>
   fromisoformat ''2024-01-15T10:30:00.123456+00:00'' = Some sample_time \<and>
   microsecond sample_time = 123456 \<and>
   from_document (to_document default_record) = Inr default_record \<and>
   (\<exists>analyses. get_recent_analyses [to_document default_record] = Ok200 analyses \<and>
      default_record \<in> set analyses)"
proof -
  have h: "analyze_github_profile table_loads octocat_env [] ''https://github.com/octocat'' =
     (Ok200 default_record, [to_document default_record])"
    using octocat_handler[of table_loads "[]"] by simp
  have c: "valid_datetime (clock octocat_env)"
    by (simp add: octocat_env_def world_def valid_sample_time)
  have t: "timestamp default_record = sample_time" by (simp add: default_record_def)
  have m: "to_document default_record \<in> set (find_recent [to_document default_record])"
    by (simp add: find_recent_def)
  from timestamp_round_trip[OF h c] empty_store m h c t isoformat_sample_time
  show ?thesis by (auto simp: sample_time_def)
qed

section \<open>A payload of the wrong shape\<close>

text \<open>
  C10. When the generator's text decodes to a JSON value that lacks the expected shape (it
  is not an object, or one of the keys \<^verbatim>\<open>score_breakdown\<close>, \<^verbatim>\<open>strengths\<close>, \<^verbatim>\<open>weaknesses\<close>,
  \<^verbatim>\<open>recommendations\<close> is missing, or \<^verbatim>\<open>score_breakdown\<close> is not an object holding the six
  field names), \<^verbatim>\<open>generate_analysis\<close> returns that value unchanged, not the default, and
  the handler's accesses raise: POST \<^verbatim>\<open>/api/analyze\<close> answers 500 and stores nothing.
\<close>

theorem malformed_payload_gives_500:
  assumes "analyze_profile e (derive_username github_url) = Inr github_data"
    and "render_prompt github_data = Inr ()"
    and "llm_reply e = Inr response"
    and "fenced_text response = Inr piece"
    and "loads (strip piece) = Some v"
    and "lacks_expected_shape v"
  shows "generate_analysis loads (llm_reply e) github_data = Inr v \<and>
         (\<exists>err. analyze_github_profile loads e store github_url =
                  (Failed 500 (AnalysisFailed err), store))"
proof -
  from assms(3,4,5) have "parse_response loads (llm_reply e) = Inr v"
    by (simp add: parse_response_def)
  with assms(2) have g: "generate_analysis loads (llm_reply e) github_data = Inr v"
    by (rule generate_analysis_parsed)
  obtain err where err: "build_analysis e (derive_username github_url) github_data v = Inl err"
    using build_analysis_shape[of e "derive_username github_url" github_data v] assms(6)
    by (cases "build_analysis e (derive_username github_url) github_data v") auto
  then have plain: "\<not> is_http_exception err" by (rule build_analysis_plain)
  from assms(1) g err have "run_analysis loads e github_url = Inl err"
    by (simp add: run_analysis_def)
  with plain have "analyze_github_profile loads e store github_url =
      (Failed 500 (AnalysisFailed err), store)"
    by (cases err) (simp_all add: analyze_github_profile_def)
  with g show ?thesis by blast
qed

theorem malformed_payload_gives_500_witness:
  "analyze_profile (world octocat_repos (Inr ''```json [1, 2] ```''))
     (derive_username ''https://github.com/octocat'') = Inr octocat_summary \<and>
   render_prompt octocat_summary = Inr () \<and>
   fenced_text ''```json [1, 2] ```'' = Inr '' [1, 2] '' \<and>
   table_loads (strip '' [1, 2] '') = Some (JList [JInt 1, JInt 2]) \<and>
   lacks_expected_shape (JList [JInt 1, JInt 2]) \<and>
   generate_analysis table_loads (llm_reply (world octocat_repos (Inr ''```json [1, 2] ```'')))
     octocat_summary = Inr (JList [JInt 1, JInt 2]) \<and>
   (\<exists>err. analyze_github_profile table_loads (world octocat_repos (Inr ''```json [1, 2] ```''))
      [] ''https://github.com/octocat'' = (Failed 500 (AnalysisFailed err), [])) \<and>
   fenced_text ''{}'' = Inr ''{}'' \<and>
   table_loads (strip ''{}'') = Some (JObj []) \<and>
   lacks_expected_shape (JObj []) \<and>
   generate_analysis table_loads (llm_reply (world octocat_repos (Inr ''{}'')))
     octocat_summary = Inr (JObj []) \<and>
   (\<exists>err. analyze_github_profile table_loads (world octocat_repos (Inr ''{}''))
      [] ''https://github.com/octocat'' = (Failed 500 (AnalysisFailed err), []))"
proof -
  have g: "\<And>reply. analyze_profile (world octocat_repos reply)
      (derive_username ''https://github.com/octocat'') = Inr octocat_summary"
    by (simp add: derive_octocat_url octocat_analyze_profile)
  have l: "\<And>reply. llm_reply (world octocat_repos (Inr reply)) = Inr reply"
    by simp
  have t1: "table_loads (strip '' [1, 2] '') = Some (JList [JInt 1, JInt 2])"
    by (simp add: table_loads_def strip_def is_space_def)
  have t2: "table_loads (strip ''{}'') = Some (JObj [])"
    by (simp add: table_loads_def strip_def is_space_def)
  have s1: "lacks_expected_shape (JList [JInt 1, JInt 2])" by simp
  have s2: "lacks_expected_shape (JObj [])" by simp
  from malformed_payload_gives_500[where loads = table_loads, OF g[of "Inr ''```json [1, 2] ```''"] octocat_render_prompt
      l[of "''```json [1, 2] ```''"] fenced_list t1 s1, of "[]"]
    malformed_payload_gives_500[where loads = table_loads, OF g[of "Inr ''{}''"] octocat_render_prompt
      l[of "''{}''"] fenced_braces t2 s2, of "[]"]
    g octocat_render_prompt fenced_list fenced_braces t1 t2 s1 s2
  show ?thesis by blast
qed

end
